theory Spec2Isabelle
  imports
    Complex_Main
    "HOL-Library.AList"
    "HOL-Library.Char_ord"
    "HOL-Library.List_Lexorder"
    "HOL-Library.Multiset"
begin

section \<open>The analysis engine: records, segments and the impact decomposition\<close>

text \<open>
  The engine (class \<open>AnalysisEngine\<close>) works on two collections of rows, one per period.
  JavaScript numbers are modelled as real numbers: sums, products and quotients are exact,
  and there is no NaN or infinity. The engine's \<open>console.log\<close> calls, and the values that
  are built only to be logged, are left out: they change no result.
\<close>

subsection \<open>Rows\<close>

text \<open>
  A cell that holds a value is a number or a text. A cell that is \<open>null\<close> or
  \<open>undefined\<close> is \<open>None\<close>: the engine never tells the two apart (it tests
  \<open>v !== null && v !== undefined\<close>, defaults with \<open>v || 0\<close>, and compares with
  \<open>===\<close> against values that are neither).
\<close>

datatype cell = Num real | Str string

text \<open>
  A row has the two numeric fields of the record model, \<open>total_loan_amount\<close> (the
  weight) and \<open>roi\<close> (the rate), each a number or missing, and its other columns in the
  order in which \<open>Object.keys\<close> lists them; a listed column may hold \<open>null\<close>.
\<close>

record row =
  total_loan_amount :: "real option"
  roi :: "real option"
  cols :: "(string \<times> cell option) list"

text \<open>\<open>row[key]\<close>.\<close>

definition field :: "row \<Rightarrow> string \<Rightarrow> cell option" where
  "field r k =
     (if k = ''total_loan_amount'' then map_option Num (total_loan_amount r)
      else if k = ''roi'' then map_option Num (roi r)
      else (case map_of (cols r) k of Some (Some v) \<Rightarrow> Some v | _ \<Rightarrow> None))"

text \<open>\<open>row.total_loan_amount || 0\<close> and \<open>row.roi || 0\<close>.\<close>

definition amountOf :: "row \<Rightarrow> real" where
  "amountOf r = (case total_loan_amount r of None \<Rightarrow> 0 | Some a \<Rightarrow> a)"

definition roiOf :: "row \<Rightarrow> real" where
  "roiOf r = (case roi r of None \<Rightarrow> 0 | Some x \<Rightarrow> x)"

subsection \<open>Filters and distinct values\<close>

text \<open>
  A filter is an object from column names to values; \<open>filterData\<close> keeps the rows that
  agree with every entry.
\<close>

type_synonym rowfilter = "(string \<times> cell) list"

definition filterData :: "row list \<Rightarrow> rowfilter \<Rightarrow> row list" where
  "filterData data flt = filter (\<lambda>r. list_all (\<lambda>(k, v). field r k = Some v) flt) data"

text \<open>\<open>[...new Set(xs)]\<close>: the first occurrence of each value, in order.\<close>

definition uniqueOf :: "'a list \<Rightarrow> 'a list" where
  "uniqueOf xs = rev (remdups (rev xs))"

text \<open>
  \<open>Array.prototype.sort()\<close> without a comparator is a stable sort by the text of each
  value. The text of a string is the string. How the language prints a number is not
  modelled: numbers get the empty text, so they stay in the order met, ahead of the
  strings. Only the order of the result depends on this.
\<close>

fun sortText :: "cell \<Rightarrow> string" where
  "sortText (Str s) = s"
| "sortText (Num x) = []"

definition getDistinctValuesForFactor :: "row list \<Rightarrow> string \<Rightarrow> cell list" where
  "getDistinctValuesForFactor data factor =
     (let values = map (\<lambda>r. field r factor) data;
          filteredValues = List.map_filter id values;
          uniqueValues = sort_key sortText (uniqueOf filteredValues)
      in uniqueValues)"

subsection \<open>Weighted aggregation\<close>

definition calculateWeightedROI :: "row list \<Rightarrow> real" where
  "calculateWeightedROI data =
     (if data = [] then 0
      else
        let totalWeightedROI = foldl (\<lambda>sum r. sum + amountOf r * roiOf r) 0 data;
            totalAmount = foldl (\<lambda>sum r. sum + amountOf r) 0 data
        in if totalAmount > 0 then totalWeightedROI / totalAmount else 0)"

definition getTotalAmount :: "row list \<Rightarrow> real" where
  "getTotalAmount data = foldl (\<lambda>sum r. sum + amountOf r) 0 data"

subsection \<open>Impact decomposition\<close>

record impact =
  yieldImpact :: real
  distributionImpact :: real
  totalImpact :: real
  yieldImpactBps :: real
  distributionImpactBps :: real
  totalImpactBps :: real
  prevDistWeight :: real
  currDistWeight :: real

definition calculateImpactDecomposition ::
  "row list \<Rightarrow> row list \<Rightarrow> row list \<Rightarrow> row list \<Rightarrow> impact" where
  "calculateImpactDecomposition prevData currData totalPrevData totalCurrData =
     (let prevSegmentROI = calculateWeightedROI prevData;
          currSegmentROI = calculateWeightedROI currData;
          prevTotalAmount = getTotalAmount totalPrevData;
          currTotalAmount = getTotalAmount totalCurrData;
          prevSegmentAmount = getTotalAmount prevData;
          currSegmentAmount = getTotalAmount currData;
          prevDW = (if prevTotalAmount > 0 then prevSegmentAmount / prevTotalAmount else 0);
          currDW = (if currTotalAmount > 0 then currSegmentAmount / currTotalAmount else 0);
          yi = (currSegmentROI - prevSegmentROI) * prevDW;
          di = prevSegmentROI * (currDW - prevDW);
          ti = yi + di
      in \<lparr> yieldImpact = yi, distributionImpact = di, totalImpact = ti,
           yieldImpactBps = yi * 10000, distributionImpactBps = di * 10000,
           totalImpactBps = ti * 10000, prevDistWeight = prevDW, currDistWeight = currDW \<rparr>)"

section \<open>Tree nodes and the two tree builders\<close>

subsection \<open>Nodes\<close>

text \<open>
  The \<open>metrics\<close> object of a node. \<open>percentOnParent\<close> is \<open>null\<close> at the root.
\<close>

record metrics =
  m_previousROI :: real
  m_currentROI :: real
  m_roiChange :: real
  m_roiChangeBps :: real
  m_yieldImpact :: real
  m_distributionImpact :: real
  m_totalImpact :: real
  m_yieldImpactBps :: real
  m_distributionImpactBps :: real
  m_totalImpactBps :: real
  m_percentOnParent :: "real option"
  m_percentOnRoot :: real
  m_previousAmount :: real
  m_currentAmount :: real
  m_previousCount :: nat
  m_currentCount :: nat

text \<open>
  A tree node: \<open>factor\<close>, \<open>value\<close>, \<open>filter\<close>, \<open>metrics\<close> and
  \<open>children\<close>, which is \<open>null\<close> (here \<open>None\<close>) or a non-empty list.
\<close>

datatype node =
  Node (nfactor: string) (nvalue: cell) (nfilter: rowfilter) (nmetrics: metrics)
       (nchildren: "node list option")

text \<open>
  The \<open>metrics\<close> literal of a child node, which both level builders write out alike.
\<close>

definition childMetrics ::
  "row list \<Rightarrow> row list \<Rightarrow> impact \<Rightarrow> real \<Rightarrow> real \<Rightarrow> metrics" where
  "childMetrics childPrevious childCurrent impacts parentTotalImpact rootImpact =
     (let prevROI = calculateWeightedROI childPrevious;
          currentROI = calculateWeightedROI childCurrent;
          roiChange = currentROI - prevROI;
          roiChangeBps = roiChange * 10000
      in \<lparr> m_previousROI = prevROI, m_currentROI = currentROI,
           m_roiChange = roiChange, m_roiChangeBps = roiChangeBps,
           m_yieldImpact = yieldImpact impacts,
           m_distributionImpact = distributionImpact impacts,
           m_totalImpact = totalImpact impacts,
           m_yieldImpactBps = yieldImpactBps impacts,
           m_distributionImpactBps = distributionImpactBps impacts,
           m_totalImpactBps = totalImpactBps impacts,
           m_percentOnParent =
             Some (if parentTotalImpact \<noteq> 0
                   then (totalImpact impacts / parentTotalImpact) * 100 else 0),
           m_percentOnRoot =
             (if rootImpact \<noteq> 0 then (totalImpact impacts / rootImpact) * 100 else 0),
           m_previousAmount = getTotalAmount childPrevious,
           m_currentAmount = getTotalAmount childCurrent,
           m_previousCount = length childPrevious,
           m_currentCount = length childCurrent \<rparr>)"

text \<open>
  \<open>children.sort((a, b) => Math.abs(b.metrics.totalImpactBps) -
  Math.abs(a.metrics.totalImpactBps))\<close>: a stable sort, greatest magnitude first.
\<close>

definition sortChildren :: "node list \<Rightarrow> node list" where
  "sortChildren cs = sort_key (\<lambda>c. - \<bar>m_totalImpactBps (nmetrics c)\<bar>) cs"

subsection \<open>Priority mode\<close>

text \<open>
  One level of the priority tree. The \<open>forEach\<close> that pushes a child for a value with
  at least one matching row is the concatenation of one-element and empty lists. A filter
  object is an association list, and \<open>{ ...parentFilter, [currentFactor]: value }\<close>
  replaces the entry of the factor or appends one. An omitted \<open>parentTotalImpact\<close>
  is \<open>null\<close>. Objects used as dictionaries are association lists throughout; property
  names that a JavaScript object inherits from its prototype are not modelled.
\<close>

function buildUserPriorityTreeLevelV2 ::
  "row list \<Rightarrow> row list \<Rightarrow> string list \<Rightarrow> string \<Rightarrow> nat \<Rightarrow> rowfilter \<Rightarrow> real \<Rightarrow> real option
     \<Rightarrow> node list option" where
  "buildUserPriorityTreeLevelV2 previousData currentData factorOrder targetVariable depth
       parentFilter rootImpact parentTotalImpact =
     (if depth \<ge> length factorOrder then None
      else
        let currentFactor = factorOrder ! depth;
            filteredPrevious = filterData previousData parentFilter;
            filteredCurrent = filterData currentData parentFilter;
            parentTI = (case parentTotalImpact of
                          None \<Rightarrow> totalImpact (calculateImpactDecomposition
                                     filteredPrevious filteredCurrent previousData currentData)
                        | Some x \<Rightarrow> x);
            distinctValues =
              getDistinctValuesForFactor (filteredPrevious @ filteredCurrent) currentFactor;
            children = concat (map (\<lambda>v.
              let childFilter = AList.update currentFactor v parentFilter;
                  childPrevious = filterData filteredPrevious [(currentFactor, v)];
                  childCurrent = filterData filteredCurrent [(currentFactor, v)]
              in if length childPrevious > 0 \<or> length childCurrent > 0 then
                   let impacts = calculateImpactDecomposition
                                   childPrevious childCurrent previousData currentData
                   in [Node currentFactor v childFilter
                         (childMetrics childPrevious childCurrent impacts parentTI rootImpact)
                         (buildUserPriorityTreeLevelV2 previousData currentData factorOrder
                            targetVariable (depth + 1) childFilter rootImpact
                            (Some (totalImpact impacts)))]
                 else []) distinctValues);
            sorted = sortChildren children
        in if length sorted > 0 then Some sorted else None)"
  by pat_completeness auto
termination
  by (relation "measure (\<lambda>(p, c, fo, tv, depth, rest). length fo - depth)") auto

declare buildUserPriorityTreeLevelV2.simps [simp del]

subsection \<open>Factor selection\<close>

text \<open>
  The population variance of the total impacts of a factor's values, each taken with the
  two given collections as the totals.
\<close>

definition calculateTotalImpactVariance :: "row list \<Rightarrow> row list \<Rightarrow> string \<Rightarrow> real" where
  "calculateTotalImpactVariance previousData currentData factor =
     (let distinctValues = getDistinctValuesForFactor (previousData @ currentData) factor;
          impacts = concat (map (\<lambda>v.
            let prevSubset = filter (\<lambda>r. field r factor = Some v) previousData;
                currSubset = filter (\<lambda>r. field r factor = Some v) currentData
            in if length prevSubset > 0 \<or> length currSubset > 0 then
                 [totalImpact (calculateImpactDecomposition
                                 prevSubset currSubset previousData currentData)]
               else []) distinctValues)
      in if length impacts = 0 then 0
         else
           let mean = foldl (\<lambda>sum impact. sum + impact) 0 impacts / real (length impacts);
               variance = foldl (\<lambda>sum impact. let diff = impact - mean in sum + diff * diff)
                            0 impacts / real (length impacts)
           in variance)"

text \<open>
  When no candidate list is given, the candidates are the keys of the first row of the
  combined data that are not excluded and hold a value in some row. The two numeric
  fields, which \<open>Object.keys\<close> would list too, are among the excluded ones.
\<close>

definition excludeColumns :: "string list" where
  "excludeColumns = [''total_loan_amount'', ''roi'', ''v_score'']"

definition detectFactors :: "row list \<Rightarrow> string list" where
  "detectFactors combinedData =
     filter (\<lambda>factor. factor \<notin> set excludeColumns
                     \<and> list_ex (\<lambda>r. field r factor \<noteq> None) combinedData)
       (uniqueOf (map fst (cols (hd combinedData))))"

text \<open>
  The selector returns the object \<open>{ factor, variance }\<close>, a pair here, or \<open>null\<close>.
  The \<open>forEach\<close> over the candidates is a left fold on \<open>(bestSplit, bestVariance)\<close>.
\<close>

definition findBestSplitByTotalImpact ::
  "row list \<Rightarrow> row list \<Rightarrow> string list option \<Rightarrow> (string \<times> real) option" where
  "findBestSplitByTotalImpact previousData currentData availableFactors =
     (let detected = (case availableFactors of
                        Some fs \<Rightarrow> Some fs
                      | None \<Rightarrow>
                          let combinedData = previousData @ currentData
                          in if length combinedData = 0 then None
                             else Some (detectFactors combinedData))
      in case detected of
           None \<Rightarrow> None
         | Some fs \<Rightarrow>
             fst (foldl (\<lambda>(bestSplit, bestVariance) factor.
                    let variance = calculateTotalImpactVariance previousData currentData factor
                    in if variance > bestVariance then (Some (factor, variance), variance)
                       else (bestSplit, bestVariance))
                  (None, 0) fs))"

subsection \<open>Auto-split mode\<close>

function buildAutoMaxSplitTreeLevelV2 ::
  "row list \<Rightarrow> row list \<Rightarrow> string \<Rightarrow> nat \<Rightarrow> rowfilter \<Rightarrow> string list option \<Rightarrow> real
     \<Rightarrow> real option \<Rightarrow> node list option" where
  "buildAutoMaxSplitTreeLevelV2 previousData currentData targetVariable depth parentFilter
       availableFactors rootImpact parentTotalImpact =
     (if depth \<ge> 4 then None
      else
        let filteredPrevious = filterData previousData parentFilter;
            filteredCurrent = filterData currentData parentFilter
        in if length filteredPrevious < 10 \<or> length filteredCurrent < 10 then None
           else
             let parentTI = (case parentTotalImpact of
                               None \<Rightarrow> totalImpact (calculateImpactDecomposition
                                          filteredPrevious filteredCurrent
                                          previousData currentData)
                             | Some x \<Rightarrow> x)
             in case findBestSplitByTotalImpact filteredPrevious filteredCurrent
                       availableFactors of
                  None \<Rightarrow> None
                | Some bestSplit \<Rightarrow>
                    let distinctValues = getDistinctValuesForFactor
                          (filteredPrevious @ filteredCurrent) (fst bestSplit);
                        children = concat (map (\<lambda>v.
                          let childFilter = AList.update (fst bestSplit) v parentFilter;
                              childPrevious =
                                filterData filteredPrevious [(fst bestSplit, v)];
                              childCurrent =
                                filterData filteredCurrent [(fst bestSplit, v)]
                          in if length childPrevious > 0 \<or> length childCurrent > 0 then
                               let impacts = calculateImpactDecomposition
                                     childPrevious childCurrent previousData currentData
                               in [Node (fst bestSplit) v childFilter
                                     (childMetrics childPrevious childCurrent impacts
                                        parentTI rootImpact)
                                     (buildAutoMaxSplitTreeLevelV2 previousData currentData
                                        targetVariable (depth + 1) childFilter
                                        availableFactors rootImpact
                                        (Some (totalImpact impacts)))]
                             else []) distinctValues);
                        sorted = sortChildren children
                    in if length sorted > 0 then Some sorted else None)"
  by pat_completeness auto
termination
  by (relation "measure (\<lambda>(p, c, tv, depth, rest). 4 - depth)") auto

declare buildAutoMaxSplitTreeLevelV2.simps [simp del]

subsection \<open>Tree analytics\<close>

text \<open>
  \<open>countNodes\<close> adds the length of every list of nodes it traverses, that is, one for
  each node; \<open>getTreeDepth\<close> follows \<open>getDepth\<close>, whose running maximum starts at 1.
\<close>

fun nodeCount :: "node \<Rightarrow> nat" where
  "nodeCount (Node f v fl m cs) =
     1 + (case cs of None \<Rightarrow> 0 | Some xs \<Rightarrow> sum_list (map nodeCount xs))"

function getDepth :: "node list \<Rightarrow> nat" where
  "getDepth nodes =
     (if length nodes = 0 then 0
      else foldl (\<lambda>maxDepth node.
             case nchildren node of
               None \<Rightarrow> maxDepth
             | Some cs \<Rightarrow> max maxDepth (1 + getDepth cs)) 1 nodes)"
  by pat_completeness auto
termination
proof (relation "measure (size_list size)", goal_cases)
  case 1
  show ?case by simp
next
  case (2 nodes a x cs)
  then have mem: "x \<in> set nodes" and ch: "nchildren x = Some cs"
    by simp_all
  have "size_list size cs < size x"
    using ch by (cases x) simp
  moreover have "size x \<le> size_list size nodes"
    using mem by (simp add: size_list_estimation')
  ultimately show ?case by simp
qed

declare getDepth.simps [simp del]

definition countNodes :: "node list option \<Rightarrow> nat" where
  "countNodes tree = (case tree of None \<Rightarrow> 0 | Some nodes \<Rightarrow> sum_list (map nodeCount nodes))"

definition getTreeDepth :: "node list option \<Rightarrow> nat" where
  "getTreeDepth tree = (case tree of None \<Rightarrow> 0 | Some nodes \<Rightarrow> getDepth nodes)"

text \<open>
  The feature importance is an object from factor to weight, an association list here;
  \<open>importance[factor] = ...\<close> replaces or appends, and \<open>totalImportance\<close> adds the
  value just stored.
\<close>

definition calculateTotalImpactFeatureImportance ::
  "row list \<Rightarrow> row list \<Rightarrow> string list option \<Rightarrow> (string \<times> real) list" where
  "calculateTotalImpactFeatureImportance previousData currentData availableFactors =
     (let detected = (case availableFactors of
                        Some fs \<Rightarrow> Some fs
                      | None \<Rightarrow>
                          let combinedData = previousData @ currentData
                          in if length combinedData = 0 then None
                             else Some (detectFactors combinedData))
      in case detected of
           None \<Rightarrow> []
         | Some fs \<Rightarrow>
             let (importance, totalImportance) =
                   foldl (\<lambda>(importance, totalImportance) factor.
                       let variance =
                             calculateTotalImpactVariance previousData currentData factor;
                           importance' = AList.update factor (max 0 variance) importance
                       in (importance', totalImportance + max 0 variance))
                     ([], 0) fs
             in if totalImportance > 0
                then map (\<lambda>(key, w). (key, w / totalImportance)) importance
                else
                  let equalWeight = 1 / real (length fs)
                  in foldl (\<lambda>importance factor. AList.update factor equalWeight importance)
                       importance fs)"

text \<open>
  \<open>calculateImpactSummaryV2\<close> traverses the tree with two running totals and the
  per-factor contributions; the traversal passes them along as a state.
\<close>

record contribution =
  c_yieldImpact :: real
  c_distributionImpact :: real
  c_totalImpact :: real

record summaryAcc =
  totalYieldImpact :: real
  totalDistributionImpact :: real
  factorContributions :: "(string \<times> contribution) list"

definition addContribution :: "node \<Rightarrow> summaryAcc \<Rightarrow> summaryAcc" where
  "addContribution node acc =
     (if nfactor node \<noteq> ''root'' then
        let m = nmetrics node;
            old = (case map_of (factorContributions acc) (nfactor node) of
                     None \<Rightarrow> \<lparr> c_yieldImpact = 0, c_distributionImpact = 0, c_totalImpact = 0 \<rparr>
                   | Some c \<Rightarrow> c)
        in \<lparr> totalYieldImpact = totalYieldImpact acc + m_yieldImpact m,
             totalDistributionImpact = totalDistributionImpact acc + m_distributionImpact m,
             factorContributions =
               AList.update (nfactor node)
                 \<lparr> c_yieldImpact = c_yieldImpact old + m_yieldImpact m,
                    c_distributionImpact = c_distributionImpact old + m_distributionImpact m,
                    c_totalImpact = c_totalImpact old + m_totalImpact m \<rparr>
                 (factorContributions acc) \<rparr>
      else acc)"

function traverseSummary :: "node list \<Rightarrow> summaryAcc \<Rightarrow> summaryAcc" where
  "traverseSummary nodes acc =
     foldl (\<lambda>acc node.
        let acc' = addContribution node acc
        in case nchildren node of
             None \<Rightarrow> acc'
           | Some cs \<Rightarrow> traverseSummary cs acc') acc nodes"
  by pat_completeness auto
termination
proof (relation "measure (\<lambda>(nodes, acc). size_list size nodes)", goal_cases)
  case 1
  show ?case by simp
next
  case (2 nodes acc a x acc' cs)
  then have mem: "x \<in> set nodes" and ch: "nchildren x = Some cs"
    by simp_all
  have "size_list size cs < size x"
    using ch by (cases x) simp
  moreover have "size x \<le> size_list size nodes"
    using mem by (simp add: size_list_estimation')
  ultimately show ?case by simp
qed

declare traverseSummary.simps [simp del]

record impactSummary =
  s_totalYieldImpact :: real
  s_totalDistributionImpact :: real
  s_totalImpact :: real
  s_totalYieldImpactBps :: real
  s_totalDistributionImpactBps :: real
  s_totalImpactBps :: real
  s_factorContributions :: "(string \<times> contribution) list"

definition calculateImpactSummaryV2 :: "node list option \<Rightarrow> impactSummary" where
  "calculateImpactSummaryV2 tree =
     (let start = \<lparr> totalYieldImpact = 0, totalDistributionImpact = 0,
                     factorContributions = [] \<rparr>;
          acc = (case tree of None \<Rightarrow> start | Some nodes \<Rightarrow> traverseSummary nodes start)
      in \<lparr> s_totalYieldImpact = totalYieldImpact acc,
           s_totalDistributionImpact = totalDistributionImpact acc,
           s_totalImpact = totalYieldImpact acc + totalDistributionImpact acc,
           s_totalYieldImpactBps = totalYieldImpact acc * 10000,
           s_totalDistributionImpactBps = totalDistributionImpact acc * 10000,
           s_totalImpactBps = (totalYieldImpact acc + totalDistributionImpact acc) * 10000,
           s_factorContributions = factorContributions acc \<rparr>)"

subsection \<open>Root nodes and the two analyses\<close>

text \<open>
  Exceptions are values. \<open>TypeError p\<close> is the engine's error on reading property
  \<open>p\<close> of a missing (\<open>undefined\<close> or \<open>null\<close>) value; \<open>Error prefix cause\<close> is
  \<open>new Error(prefix + cause.message)\<close>, thrown by the \<open>catch\<close> blocks of the analyses.
\<close>

datatype js_error = TypeError string | Error string js_error

text \<open>
  \<open>calculateWeightedROI\<close> returns 0 for missing data (\<open>!data\<close>) as for empty data.
\<close>

definition weightedROIOrZero :: "row list option \<Rightarrow> real" where
  "weightedROIOrZero data = (case data of None \<Rightarrow> 0 | Some d \<Rightarrow> calculateWeightedROI d)"

text \<open>
  The root literal of both tree builders. A collection may be missing (\<open>None\<close>). The
  literal first calls \<open>calculateWeightedROI\<close> on both collections, which tolerates a
  missing one, and then \<open>getTotalAmount(previousData)\<close> and
  \<open>getTotalAmount(currentData)\<close>, which read \<open>.reduce\<close>: the first missing collection
  raises there, before any child is built. With a depth other than 0 the builders return
  \<open>null\<close>.
\<close>

definition rootMetrics :: "row list \<Rightarrow> row list \<Rightarrow> metrics" where
  "rootMetrics previousData currentData =
     (let rootPreviousROI = calculateWeightedROI previousData;
          rootCurrentROI = calculateWeightedROI currentData;
          rootROIChange = rootCurrentROI - rootPreviousROI;
          rootROIChangeBps = rootROIChange * 10000
      in \<lparr> m_previousROI = rootPreviousROI, m_currentROI = rootCurrentROI,
           m_roiChange = rootROIChange, m_roiChangeBps = rootROIChangeBps,
           m_yieldImpact = rootROIChange, m_distributionImpact = 0,
           m_totalImpact = rootROIChange, m_yieldImpactBps = rootROIChangeBps,
           m_distributionImpactBps = 0, m_totalImpactBps = rootROIChangeBps,
           m_percentOnParent = None, m_percentOnRoot = 100,
           m_previousAmount = getTotalAmount previousData,
           m_currentAmount = getTotalAmount currentData,
           m_previousCount = length previousData,
           m_currentCount = length currentData \<rparr>)"

definition buildUserPriorityTreeV2 ::
  "row list option \<Rightarrow> row list option \<Rightarrow> string list \<Rightarrow> string \<Rightarrow> nat \<Rightarrow> rowfilter
     \<Rightarrow> js_error + node list option" where
  "buildUserPriorityTreeV2 previousData currentData factorOrder targetVariable depth
       parentFilter =
     (if depth = 0 then
        (case previousData of
           None \<Rightarrow> Inl (TypeError ''reduce'')
         | Some p \<Rightarrow>
             (case currentData of
                None \<Rightarrow> Inl (TypeError ''reduce'')
              | Some c \<Rightarrow>
                  let rootROIChange = calculateWeightedROI c - calculateWeightedROI p
                  in Inr (Some [Node ''root'' (Str ''Portfolio ROI'') [] (rootMetrics p c)
                                  (buildUserPriorityTreeLevelV2 p c factorOrder
                                     targetVariable 0 [] rootROIChange None)])))
      else Inr None)"

definition buildAutoMaxSplitTreeV2 ::
  "row list option \<Rightarrow> row list option \<Rightarrow> string \<Rightarrow> nat \<Rightarrow> rowfilter \<Rightarrow> string list option
     \<Rightarrow> js_error + node list option" where
  "buildAutoMaxSplitTreeV2 previousData currentData targetVariable depth parentFilter
       availableFactors =
     (if depth = 0 then
        (case previousData of
           None \<Rightarrow> Inl (TypeError ''reduce'')
         | Some p \<Rightarrow>
             (case currentData of
                None \<Rightarrow> Inl (TypeError ''reduce'')
              | Some c \<Rightarrow>
                  let rootROIChange = calculateWeightedROI c - calculateWeightedROI p
                  in Inr (Some [Node ''root'' (Str ''Portfolio ROI'') [] (rootMetrics p c)
                                  (buildAutoMaxSplitTreeLevelV2 p c targetVariable 0 []
                                     availableFactors rootROIChange None)])))
      else Inr None)"

text \<open>
  The two analyses: the input \<open>data\<close> with its two collections, and the result object.
  \<open>factorOrder\<close> is a key of the priority result only and \<open>featureImportance\<close> of the
  auto-split result only. Everything inside \<open>try\<close> that raises is rethrown with the
  analysis's prefix. In the auto-split analysis the collections are present once the tree
  is built; the last case stands for the spread of a missing collection.
\<close>

record analysisData =
  previousMonth :: "row list option"
  currentMonth :: "row list option"

record metadata =
  totalNodes :: nat
  maxDepth :: nat
  totalROIChange :: real
  algorithm :: string

record analysisResult =
  r_analysisType :: string
  r_version :: string
  r_targetVariable :: string
  r_factorOrder :: "string list option"
  r_tree :: "node list option"
  r_featureImportance :: "(string \<times> real) list option"
  r_impactSummary :: impactSummary
  r_metadata :: metadata

definition calculateTotalROIChange :: "row list option \<Rightarrow> row list option \<Rightarrow> real" where
  "calculateTotalROIChange previousData currentData =
     (let prevROI = weightedROIOrZero previousData;
          currentROI = weightedROIOrZero currentData
      in currentROI - prevROI)"

definition performUserPriorityAnalysisV2 ::
  "analysisData \<Rightarrow> string list \<Rightarrow> string \<Rightarrow> js_error + analysisResult" where
  "performUserPriorityAnalysisV2 data factorOrder targetVariable =
     (case buildUserPriorityTreeV2 (previousMonth data) (currentMonth data) factorOrder
             targetVariable 0 [] of
        Inl e \<Rightarrow> Inl (Error ''V2 User-Priority analysis failed: '' e)
      | Inr tree \<Rightarrow>
          Inr \<lparr> r_analysisType = ''user-priority'', r_version = ''v2'',
                r_targetVariable = targetVariable, r_factorOrder = Some factorOrder,
                r_tree = tree, r_featureImportance = None,
                r_impactSummary = calculateImpactSummaryV2 tree,
                r_metadata =
                  \<lparr> totalNodes = countNodes tree, maxDepth = getTreeDepth tree,
                     totalROIChange =
                       calculateTotalROIChange (previousMonth data) (currentMonth data)
                         * 10000,
                     algorithm = ''enhanced-impact-decomposition'' \<rparr> \<rparr>)"

definition performAutoMaxSplitAnalysisV2 ::
  "analysisData \<Rightarrow> string \<Rightarrow> string list option \<Rightarrow> js_error + analysisResult" where
  "performAutoMaxSplitAnalysisV2 data targetVariable availableFactors =
     (case buildAutoMaxSplitTreeV2 (previousMonth data) (currentMonth data) targetVariable
             0 [] availableFactors of
        Inl e \<Rightarrow> Inl (Error ''V2 Auto-Max Split analysis failed: '' e)
      | Inr tree \<Rightarrow>
          (case (previousMonth data, currentMonth data) of
             (Some p, Some c) \<Rightarrow>
               Inr \<lparr> r_analysisType = ''auto-max-split'', r_version = ''v2'',
                     r_targetVariable = targetVariable, r_factorOrder = None,
                     r_tree = tree,
                     r_featureImportance =
                       Some (calculateTotalImpactFeatureImportance p c availableFactors),
                     r_impactSummary = calculateImpactSummaryV2 tree,
                     r_metadata =
                       \<lparr> totalNodes = countNodes tree, maxDepth = getTreeDepth tree,
                          totalROIChange =
                            calculateTotalROIChange (previousMonth data)
                              (currentMonth data) * 10000,
                          algorithm = ''total-impact-variance-maximization'' \<rparr> \<rparr>
           | _ \<Rightarrow> Inl (Error ''V2 Auto-Max Split analysis failed: ''
                         (TypeError ''Symbol.iterator''))))"

subsection \<open>The record model\<close>

text \<open>
  The record model has non-negative weights; the predicate says so for a collection.
\<close>

definition nonnegWeights :: "row list \<Rightarrow> bool" where
  "nonnegWeights data = list_all (\<lambda>r. 0 \<le> amountOf r) data"

subsection \<open>Notions used to state the properties\<close>

text \<open>The children of a node as a list: none for \<open>null\<close>.\<close>

definition childList :: "node list option \<Rightarrow> node list" where
  "childList cs = (case cs of None \<Rightarrow> [] | Some xs \<Rightarrow> xs)"

text \<open>The values that a column takes in a collection; \<open>null\<close> and \<open>undefined\<close> are no values.\<close>

definition valuesPresent :: "row list \<Rightarrow> string \<Rightarrow> cell set" where
  "valuesPresent data f = set (List.map_filter (\<lambda>r. field r f) data)"

text \<open>
  The weighted rate as the specification words it: the average is taken over the records
  that have both a weight and a rate.
\<close>

definition weightedRateOverDefined :: "row list \<Rightarrow> real" where
  "weightedRateOverDefined data =
     (let defined = filter (\<lambda>r. total_loan_amount r \<noteq> None \<and> roi r \<noteq> None) data;
          totalWeight = (\<Sum>r\<leftarrow>defined. amountOf r)
      in if defined = [] \<or> totalWeight = 0 then 0
         else (\<Sum>r\<leftarrow>defined. amountOf r * roiOf r) / totalWeight)"

text \<open>The number of splitting levels below a node, and the nodes of its subtree.\<close>

fun levelsBelow :: "node \<Rightarrow> nat" where
  "levelsBelow (Node f v fl m cs) =
     (case cs of None \<Rightarrow> 0 | Some xs \<Rightarrow> Suc (foldr max (map levelsBelow xs) 0))"

fun subtree :: "node \<Rightarrow> node list" where
  "subtree (Node f v fl m cs) =
     Node f v fl m cs # (case cs of None \<Rightarrow> [] | Some xs \<Rightarrow> concat (map subtree xs))"

text \<open>
  The factor selector as the specification words it: the per-value total impacts are
  taken against the whole portfolio \<open>totalPrev\<close>, \<open>totalCurr\<close>, whatever subsets the
  node holds.
\<close>

definition calculateTotalImpactVarianceGlobal ::
  "row list \<Rightarrow> row list \<Rightarrow> row list \<Rightarrow> row list \<Rightarrow> string \<Rightarrow> real" where
  "calculateTotalImpactVarianceGlobal previousData currentData totalPrev totalCurr factor =
     (let distinctValues = getDistinctValuesForFactor (previousData @ currentData) factor;
          impacts = concat (map (\<lambda>v.
            let prevSubset = filter (\<lambda>r. field r factor = Some v) previousData;
                currSubset = filter (\<lambda>r. field r factor = Some v) currentData
            in if length prevSubset > 0 \<or> length currSubset > 0 then
                 [totalImpact (calculateImpactDecomposition
                                 prevSubset currSubset totalPrev totalCurr)]
               else []) distinctValues)
      in if length impacts = 0 then 0
         else
           let mean = foldl (\<lambda>sum impact. sum + impact) 0 impacts / real (length impacts);
               variance = foldl (\<lambda>sum impact. let diff = impact - mean in sum + diff * diff)
                            0 impacts / real (length impacts)
           in variance)"

definition findBestSplitGlobal ::
  "row list \<Rightarrow> row list \<Rightarrow> row list \<Rightarrow> row list \<Rightarrow> string list \<Rightarrow> (string \<times> real) option" where
  "findBestSplitGlobal previousData currentData totalPrev totalCurr fs =
     fst (foldl (\<lambda>(bestSplit, bestVariance) factor.
            let variance = calculateTotalImpactVarianceGlobal
                             previousData currentData totalPrev totalCurr factor
            in if variance > bestVariance then (Some (factor, variance), variance)
               else (bestSplit, bestVariance))
          (None, 0) fs)"

subsection \<open>An example portfolio\<close>

text \<open>
  Tier A holds twelve loans of 10 in each period, three for each pair of a channel
  \<open>x\<close> and a band \<open>y\<close>; tier B holds one loan, of 120 and then of 360, so that the
  share of tier A falls from one half to one quarter. In tier A the rate depends on the
  band in the previous period and moves by one point up or down with the channel.
\<close>

definition exRow :: "real \<Rightarrow> real \<Rightarrow> string \<Rightarrow> (string \<times> string) list \<Rightarrow> row" where
  "exRow a r t xy = \<lparr>total_loan_amount = Some a, roi = Some r,
      cols = (''tier'', Some (Str t)) # map (\<lambda>(k, v). (k, Some (Str v))) xy\<rparr>"

definition prevEx :: "row list" where
  "prevEx = replicate 3 (exRow 10 (20/100) ''A'' [(''x'', ''x1''), (''y'', ''y1'')])
          @ replicate 3 (exRow 10 (10/100) ''A'' [(''x'', ''x1''), (''y'', ''y2'')])
          @ replicate 3 (exRow 10 (20/100) ''A'' [(''x'', ''x2''), (''y'', ''y1'')])
          @ replicate 3 (exRow 10 (10/100) ''A'' [(''x'', ''x2''), (''y'', ''y2'')])
          @ [exRow 120 (20/100) ''B'' []]"

definition currEx :: "row list" where
  "currEx = replicate 3 (exRow 10 (21/100) ''A'' [(''x'', ''x1''), (''y'', ''y1'')])
          @ replicate 3 (exRow 10 (11/100) ''A'' [(''x'', ''x1''), (''y'', ''y2'')])
          @ replicate 3 (exRow 10 (19/100) ''A'' [(''x'', ''x2''), (''y'', ''y1'')])
          @ replicate 3 (exRow 10 (9/100) ''A'' [(''x'', ''x2''), (''y'', ''y2'')])
          @ [exRow 360 (20/100) ''B'' []]"

text \<open>
  A smaller portfolio, whose weight moves from tier B to tier A at an unchanged rate, and
  one in which a loan has no tier.
\<close>

definition smallPrev :: "row list" where
  "smallPrev = [exRow 50 (1/10) ''A'' [], exRow 50 (1/10) ''B'' []]"

definition smallCurr :: "row list" where
  "smallCurr = [exRow 80 (1/10) ''A'' [], exRow 20 (1/10) ''B'' []]"

definition untiered :: "row list" where
  "untiered = [exRow 50 (1/10) ''A'' [],
               \<lparr>total_loan_amount = Some 30, roi = Some (1/10), cols = [(''tier'', None)]\<rparr>]"

definition exFactors :: "string list" where
  "exFactors = [''tier'', ''x'', ''y'']"

section \<open>Properties of the aggregator and the decomposition\<close>

lemma foldl_add_sum_list:
  "foldl (\<lambda>s r. s + f r) a xs = (a::real) + sum_list (map f xs)"
  by (induction xs arbitrary: a) simp_all

lemma getTotalAmount_sum: "getTotalAmount data = sum_list (map amountOf data)"
  by (simp add: getTotalAmount_def foldl_add_sum_list)

lemma calculateWeightedROI_sum:
  "calculateWeightedROI data =
     (if 0 < sum_list (map amountOf data)
      then sum_list (map (\<lambda>r. amountOf r * roiOf r) data) / sum_list (map amountOf data)
      else 0)"
  by (cases data) (simp_all add: calculateWeightedROI_def foldl_add_sum_list Let_def)

lemma nonnegWeights_sum: "nonnegWeights data \<Longrightarrow> 0 \<le> sum_list (map amountOf data)"
  by (induction data) (simp_all add: nonnegWeights_def)

lemma nonnegWeights_total: "nonnegWeights data \<Longrightarrow> 0 \<le> getTotalAmount data"
  by (simp add: getTotalAmount_sum nonnegWeights_sum)

text \<open>
  Claim C1. \<open>calculateImpactDecomposition\<close> returns
  yieldImpact = (currSegmentROI - prevSegmentROI) * prevDistWeight,
  distributionImpact = prevSegmentROI * (currDistWeight - prevDistWeight) and
  totalImpact = yieldImpact + distributionImpact, for every input. Each distribution
  weight is the segment's total weight divided by the portfolio's total weight, and 0 when
  the portfolio's total weight is 0; this part is stated for portfolios of non-negative
  weights, as the record model has them.
\<close>

theorem impact_decomposition_formula:
  fixes prevData currData totalPrevData totalCurrData :: "row list"
  defines "d \<equiv> calculateImpactDecomposition prevData currData totalPrevData totalCurrData"
  shows "totalImpact d = yieldImpact d + distributionImpact d
       \<and> yieldImpact d =
           (calculateWeightedROI currData - calculateWeightedROI prevData) * prevDistWeight d
       \<and> distributionImpact d =
           calculateWeightedROI prevData * (currDistWeight d - prevDistWeight d)
       \<and> (nonnegWeights totalPrevData \<longrightarrow>
            prevDistWeight d =
              (if getTotalAmount totalPrevData = 0 then 0
               else getTotalAmount prevData / getTotalAmount totalPrevData))
       \<and> (nonnegWeights totalCurrData \<longrightarrow>
            currDistWeight d =
              (if getTotalAmount totalCurrData = 0 then 0
               else getTotalAmount currData / getTotalAmount totalCurrData))"
proof -
  have p: "nonnegWeights totalPrevData \<Longrightarrow>
      (getTotalAmount totalPrevData > 0) = (getTotalAmount totalPrevData \<noteq> 0)"
    using nonnegWeights_total [of totalPrevData] by auto
  have c: "nonnegWeights totalCurrData \<Longrightarrow>
      (getTotalAmount totalCurrData > 0) = (getTotalAmount totalCurrData \<noteq> 0)"
    using nonnegWeights_total [of totalCurrData] by auto
  show ?thesis
    unfolding d_def calculateImpactDecomposition_def Let_def
    using p c by simp
qed

theorem impact_decomposition_formula_witness:
  "(let seg = [\<lparr>total_loan_amount = Some 50, roi = Some (1/10), cols = []\<rparr>];
        tot = [\<lparr>total_loan_amount = Some 50, roi = Some (1/10), cols = []\<rparr>,
               \<lparr>total_loan_amount = Some 150, roi = Some (1/5), cols = []\<rparr>];
        d = calculateImpactDecomposition seg seg tot tot
    in nonnegWeights tot \<and> prevDistWeight d = 1/4 \<and> currDistWeight d = 1/4
       \<and> totalImpact d = yieldImpact d + distributionImpact d)"
  using impact_decomposition_formula
    [of "[\<lparr>total_loan_amount = Some 50, roi = Some (1/10), cols = []\<rparr>]"
        "[\<lparr>total_loan_amount = Some 50, roi = Some (1/10), cols = []\<rparr>]"
        "[\<lparr>total_loan_amount = Some 50, roi = Some (1/10), cols = []\<rparr>,
          \<lparr>total_loan_amount = Some 150, roi = Some (1/5), cols = []\<rparr>]"
        "[\<lparr>total_loan_amount = Some 50, roi = Some (1/10), cols = []\<rparr>,
          \<lparr>total_loan_amount = Some 150, roi = Some (1/5), cols = []\<rparr>]"]
  by (simp add: Let_def nonnegWeights_def amountOf_def getTotalAmount_def)

text \<open>
  Claim C2 says that \<open>calculateWeightedROI\<close> averages over the records with defined
  weight and rate. Of three records, of weight 100 at rate 1/10, of weight 300 without a
  rate, and of rate 1/2 without a weight, the code returns 10 / 400 = 1/40: the record
  without a rate stays in the total weight. Over the records that have both fields the
  average is 10 / 100 = 1/10.
\<close>

theorem record_without_rate_keeps_weight:
  "calculateWeightedROI
     [\<lparr>total_loan_amount = Some 100, roi = Some (1/10), cols = []\<rparr>,
      \<lparr>total_loan_amount = Some 300, roi = None, cols = []\<rparr>,
      \<lparr>total_loan_amount = None, roi = Some (1/2), cols = []\<rparr>] = 1/40
   \<and> weightedRateOverDefined
     [\<lparr>total_loan_amount = Some 100, roi = Some (1/10), cols = []\<rparr>,
      \<lparr>total_loan_amount = Some 300, roi = None, cols = []\<rparr>,
      \<lparr>total_loan_amount = None, roi = Some (1/2), cols = []\<rparr>] = 1/10"
  by code_simp

text \<open>
  Claim C2, amended. For records whose weight and rate are numbers or missing,
  \<open>calculateWeightedROI\<close> returns \<Sigma>(weight * rate) / \<Sigma>(weight) with both sums over
  all records of the list and a missing weight or rate counted as 0, so that a record
  with a weight and no rate still adds its weight to the total; it returns 0 when the list
  is empty or the total weight is 0. \<open>getTotalAmount\<close> returns \<Sigma> weight, a missing
  weight counted as 0, and 0 for the empty list. Both are total functions of the list. In
  the code the average is taken when the total weight is positive; for the non-negative
  weights of the record model that is whenever it is not 0.
\<close>

theorem weighted_aggregator_correct:
  "calculateWeightedROI data =
     (if 0 < (\<Sum>r\<leftarrow>data. amountOf r)
      then (\<Sum>r\<leftarrow>data. amountOf r * roiOf r) / (\<Sum>r\<leftarrow>data. amountOf r) else 0)
   \<and> (nonnegWeights data \<longrightarrow>
        calculateWeightedROI data =
          (if data = [] \<or> (\<Sum>r\<leftarrow>data. amountOf r) = 0 then 0
           else (\<Sum>r\<leftarrow>data. amountOf r * roiOf r) / (\<Sum>r\<leftarrow>data. amountOf r)))
   \<and> getTotalAmount data = (\<Sum>r\<leftarrow>data. amountOf r)
   \<and> calculateWeightedROI [] = 0 \<and> getTotalAmount [] = 0
   \<and> amountOf (r\<lparr>total_loan_amount := None\<rparr>) = 0 \<and> roiOf (r\<lparr>roi := None\<rparr>) = 0"
proof -
  have "nonnegWeights data \<Longrightarrow>
      (0 < sum_list (map amountOf data)) = (\<not> (data = [] \<or> sum_list (map amountOf data) = 0))"
    using nonnegWeights_sum [of data] by (cases data) auto
  moreover have "amountOf (r\<lparr>total_loan_amount := None\<rparr>) = 0" "roiOf (r\<lparr>roi := None\<rparr>) = 0"
    by (simp_all add: amountOf_def roiOf_def)
  moreover have "calculateWeightedROI [] = 0" "getTotalAmount [] = 0"
    by (simp_all add: calculateWeightedROI_def getTotalAmount_def)
  ultimately show ?thesis
    using calculateWeightedROI_sum [of data] getTotalAmount_sum [of data] by presburger
qed

theorem weighted_aggregator_correct_witness:
  "(let data = [\<lparr>total_loan_amount = Some 100, roi = Some (1/10), cols = []\<rparr>,
                \<lparr>total_loan_amount = Some 300, roi = None, cols = []\<rparr>,
                \<lparr>total_loan_amount = None, roi = Some (1/2), cols = []\<rparr>]
    in nonnegWeights data \<and> calculateWeightedROI data = 1/40 \<and> getTotalAmount data = 400)"
  using weighted_aggregator_correct
    [of "[\<lparr>total_loan_amount = Some 100, roi = Some (1/10), cols = []\<rparr>,
          \<lparr>total_loan_amount = Some 300, roi = None, cols = []\<rparr>,
          \<lparr>total_loan_amount = None, roi = Some (1/2), cols = []\<rparr>]"]
  by (simp add: Let_def nonnegWeights_def amountOf_def roiOf_def)

section \<open>Root nodes and failure\<close>

text \<open>
  Claim C3. In both modes the tree builder, given the two collections, returns a single
  root node whose distributionImpact is 0 and whose totalImpact is the portfolio's current
  weighted rate minus its previous weighted rate; totalImpactBps is that difference times
  10000.
\<close>

theorem root_invariant:
  "(\<exists>root. buildUserPriorityTreeV2 (Some p) (Some c) factorOrder tv 0 [] = Inr (Some [root])
        \<and> m_distributionImpact (nmetrics root) = 0
        \<and> m_totalImpact (nmetrics root) = calculateWeightedROI c - calculateWeightedROI p
        \<and> m_totalImpactBps (nmetrics root)
            = (calculateWeightedROI c - calculateWeightedROI p) * 10000)
 \<and> (\<exists>root. buildAutoMaxSplitTreeV2 (Some p) (Some c) tv 0 [] availableFactors
            = Inr (Some [root])
        \<and> m_distributionImpact (nmetrics root) = 0
        \<and> m_totalImpact (nmetrics root) = calculateWeightedROI c - calculateWeightedROI p
        \<and> m_totalImpactBps (nmetrics root)
            = (calculateWeightedROI c - calculateWeightedROI p) * 10000)"
  by (simp add: buildUserPriorityTreeV2_def buildAutoMaxSplitTreeV2_def rootMetrics_def Let_def)

text \<open>
  Claim C8 says that an analysis invoked with missing or empty collections raises an
  error. With two empty collections neither analysis fails: each returns a result whose
  tree is the root alone.
\<close>

theorem empty_collections_do_not_fail:
  "\<not> isl (performUserPriorityAnalysisV2
             \<lparr>previousMonth = Some [], currentMonth = Some []\<rparr> [''tier''] ''roi'')
   \<and> \<not> isl (performAutoMaxSplitAnalysisV2
             \<lparr>previousMonth = Some [], currentMonth = Some []\<rparr> ''roi'' None)"
  by (simp add: performUserPriorityAnalysisV2_def performAutoMaxSplitAnalysisV2_def
      buildUserPriorityTreeV2_def buildAutoMaxSplitTreeV2_def)

lemma priority_level_empty:
  "buildUserPriorityTreeLevelV2 [] [] factorOrder tv depth pf ri pti = None"
  by (subst buildUserPriorityTreeLevelV2.simps)
     (simp add: filterData_def getDistinctValuesForFactor_def uniqueOf_def
        List.map_filter_def sortChildren_def Let_def)

lemma auto_level_few_rows:
  "length (filterData p pf) < 10 \<or> length (filterData c pf) < 10 \<Longrightarrow>
     buildAutoMaxSplitTreeLevelV2 p c tv depth pf fs ri pti = None"
  by (subst buildAutoMaxSplitTreeLevelV2.simps) (auto simp: Let_def)

text \<open>
  Claim C8, amended. For records whose weight and rate are numbers or missing: an analysis
  invoked with a missing previous or current collection fails with an error that names the
  analysis and wraps the engine's type error; an analysis invoked with two empty
  collections does not fail and returns a tree of one node, the root without children; and
  an analysis whose level builder produces no children does not fail and returns the root
  alone.
\<close>

theorem analysis_failure_semantics:
  "(previousMonth data = None \<or> currentMonth data = None \<longrightarrow>
      performUserPriorityAnalysisV2 data factorOrder tv
        = Inl (Error ''V2 User-Priority analysis failed: '' (TypeError ''reduce''))
      \<and> performAutoMaxSplitAnalysisV2 data tv availableFactors
        = Inl (Error ''V2 Auto-Max Split analysis failed: '' (TypeError ''reduce'')))
 \<and> (previousMonth data = Some [] \<and> currentMonth data = Some [] \<longrightarrow>
      (\<exists>res. performUserPriorityAnalysisV2 data factorOrder tv = Inr res
          \<and> r_tree res = Some [Node ''root'' (Str ''Portfolio ROI'') [] (rootMetrics [] []) None]
          \<and> totalNodes (r_metadata res) = 1)
      \<and> (\<exists>res. performAutoMaxSplitAnalysisV2 data tv availableFactors = Inr res
          \<and> r_tree res = Some [Node ''root'' (Str ''Portfolio ROI'') [] (rootMetrics [] []) None]
          \<and> totalNodes (r_metadata res) = 1))
 \<and> (previousMonth data = Some p \<and> currentMonth data = Some c \<longrightarrow>
      (buildUserPriorityTreeLevelV2 p c factorOrder tv 0 []
           (calculateWeightedROI c - calculateWeightedROI p) None = None \<longrightarrow>
         (\<exists>res. performUserPriorityAnalysisV2 data factorOrder tv = Inr res
            \<and> r_tree res
                = Some [Node ''root'' (Str ''Portfolio ROI'') [] (rootMetrics p c) None]))
      \<and> (buildAutoMaxSplitTreeLevelV2 p c tv 0 [] availableFactors
           (calculateWeightedROI c - calculateWeightedROI p) None = None \<longrightarrow>
         (\<exists>res. performAutoMaxSplitAnalysisV2 data tv availableFactors = Inr res
            \<and> r_tree res
                = Some [Node ''root'' (Str ''Portfolio ROI'') [] (rootMetrics p c) None])))"
proof (intro conjI impI)
  assume "previousMonth data = None \<or> currentMonth data = None"
  then show "performUserPriorityAnalysisV2 data factorOrder tv
        = Inl (Error ''V2 User-Priority analysis failed: '' (TypeError ''reduce''))"
    and "performAutoMaxSplitAnalysisV2 data tv availableFactors
        = Inl (Error ''V2 Auto-Max Split analysis failed: '' (TypeError ''reduce''))"
    by (auto simp: performUserPriorityAnalysisV2_def performAutoMaxSplitAnalysisV2_def
        buildUserPriorityTreeV2_def buildAutoMaxSplitTreeV2_def split: option.splits)
next
  assume e: "previousMonth data = Some [] \<and> currentMonth data = Some []"
  show "\<exists>res. performUserPriorityAnalysisV2 data factorOrder tv = Inr res
          \<and> r_tree res = Some [Node ''root'' (Str ''Portfolio ROI'') [] (rootMetrics [] []) None]
          \<and> totalNodes (r_metadata res) = 1"
    using e by (simp add: performUserPriorityAnalysisV2_def buildUserPriorityTreeV2_def
        priority_level_empty countNodes_def Let_def)
  show "\<exists>res. performAutoMaxSplitAnalysisV2 data tv availableFactors = Inr res
          \<and> r_tree res = Some [Node ''root'' (Str ''Portfolio ROI'') [] (rootMetrics [] []) None]
          \<and> totalNodes (r_metadata res) = 1"
    using e by (simp add: performAutoMaxSplitAnalysisV2_def buildAutoMaxSplitTreeV2_def
        auto_level_few_rows filterData_def countNodes_def Let_def)
next
  assume pc: "previousMonth data = Some p \<and> currentMonth data = Some c"
    and n: "buildUserPriorityTreeLevelV2 p c factorOrder tv 0 []
           (calculateWeightedROI c - calculateWeightedROI p) None = None"
  show "\<exists>res. performUserPriorityAnalysisV2 data factorOrder tv = Inr res
            \<and> r_tree res
                = Some [Node ''root'' (Str ''Portfolio ROI'') [] (rootMetrics p c) None]"
    using pc n by (simp add: performUserPriorityAnalysisV2_def buildUserPriorityTreeV2_def
        Let_def)
next
  assume pc: "previousMonth data = Some p \<and> currentMonth data = Some c"
    and n: "buildAutoMaxSplitTreeLevelV2 p c tv 0 [] availableFactors
           (calculateWeightedROI c - calculateWeightedROI p) None = None"
  show "\<exists>res. performAutoMaxSplitAnalysisV2 data tv availableFactors = Inr res
            \<and> r_tree res
                = Some [Node ''root'' (Str ''Portfolio ROI'') [] (rootMetrics p c) None]"
    using pc n by (simp add: performAutoMaxSplitAnalysisV2_def buildAutoMaxSplitTreeV2_def
        Let_def)
qed

theorem analysis_failure_semantics_witness:
  "performUserPriorityAnalysisV2 \<lparr>previousMonth = None, currentMonth = Some []\<rparr> [] ''roi''
     = Inl (Error ''V2 User-Priority analysis failed: '' (TypeError ''reduce''))
   \<and> (\<exists>res. performUserPriorityAnalysisV2
               \<lparr>previousMonth = Some [], currentMonth = Some []\<rparr> [''tier''] ''roi'' = Inr res
          \<and> r_tree res = Some [Node ''root'' (Str ''Portfolio ROI'') [] (rootMetrics [] []) None])
   \<and> buildAutoMaxSplitTreeLevelV2 smallPrev smallCurr ''roi'' 0 [] None
        (calculateWeightedROI smallCurr - calculateWeightedROI smallPrev) None = None
   \<and> (\<exists>res. performAutoMaxSplitAnalysisV2
               \<lparr>previousMonth = Some smallPrev, currentMonth = Some smallCurr\<rparr> ''roi'' None
             = Inr res
          \<and> r_tree res = Some [Node ''root'' (Str ''Portfolio ROI'') []
                                 (rootMetrics smallPrev smallCurr) None])"
proof -
  have few: "buildAutoMaxSplitTreeLevelV2 smallPrev smallCurr ''roi'' 0 [] None
        (calculateWeightedROI smallCurr - calculateWeightedROI smallPrev) None = None"
    by (rule auto_level_few_rows) (simp add: filterData_def smallPrev_def)
  have A: "performUserPriorityAnalysisV2 \<lparr>previousMonth = None, currentMonth = Some []\<rparr> []
       ''roi'' = Inl (Error ''V2 User-Priority analysis failed: '' (TypeError ''reduce''))"
    using analysis_failure_semantics
          [of "\<lparr>previousMonth = None, currentMonth = Some []\<rparr>" "[]" "''roi''" None "[]" "[]"]
    by simp
  have B: "\<exists>res. performUserPriorityAnalysisV2
               \<lparr>previousMonth = Some [], currentMonth = Some []\<rparr> [''tier''] ''roi'' = Inr res
          \<and> r_tree res = Some [Node ''root'' (Str ''Portfolio ROI'') [] (rootMetrics [] []) None]"
    using analysis_failure_semantics
          [of "\<lparr>previousMonth = Some [], currentMonth = Some []\<rparr>" "[''tier'']" "''roi''"
              None "[]" "[]"]
    by auto
  have C: "\<exists>res. performAutoMaxSplitAnalysisV2
               \<lparr>previousMonth = Some smallPrev, currentMonth = Some smallCurr\<rparr> ''roi'' None
             = Inr res
          \<and> r_tree res = Some [Node ''root'' (Str ''Portfolio ROI'') []
                                 (rootMetrics smallPrev smallCurr) None]"
    using analysis_failure_semantics
          [of "\<lparr>previousMonth = Some smallPrev, currentMonth = Some smallCurr\<rparr>" "[]"
              "''roi''" None smallPrev smallCurr]
        few
    by auto
  from A B C few show ?thesis by blast
qed

section \<open>Structure of the tree levels\<close>

lemma set_map_filter_id: "set (List.map_filter id xs) = {v. Some v \<in> set xs}"
  by (induction xs) (auto simp: List.map_filter_def)

lemma set_getDistinctValuesForFactor:
  "set (getDistinctValuesForFactor data f) = {v. \<exists>r\<in>set data. field r f = Some v}"
  by (auto simp: getDistinctValuesForFactor_def uniqueOf_def set_map_filter_id Let_def
      intro: rev_image_eqI)

lemma distinct_getDistinctValuesForFactor: "distinct (getDistinctValuesForFactor data f)"
  by (simp add: getDistinctValuesForFactor_def uniqueOf_def Let_def)

lemma filterData_single:
  "filterData data [(f, v)] = filter (\<lambda>r. field r f = Some v) data"
  by (simp add: filterData_def)

lemma child_nonempty:
  assumes "v \<in> set (getDistinctValuesForFactor (A @ B) f)"
  shows "0 < length (filterData A [(f, v)]) \<or> 0 < length (filterData B [(f, v)])"
proof -
  from assms obtain r where "r \<in> set A \<union> set B" "field r f = Some v"
    by (auto simp: set_getDistinctValuesForFactor)
  then have "r \<in> set (filterData A [(f, v)]) \<or> r \<in> set (filterData B [(f, v)])"
    by (auto simp: filterData_single)
  then show ?thesis
    by (auto simp: length_greater_0_conv simp del: length_greater_0_conv)
qed

lemma concat_map_singletons:
  "(\<And>x. x \<in> set xs \<Longrightarrow> g x = [h x]) \<Longrightarrow> concat (map g xs) = map h xs"
  by (induction xs) simp_all

lemma priority_level_unfold:
  assumes "depth < length factorOrder"
  shows "buildUserPriorityTreeLevelV2 p c factorOrder tv depth pf ri pti =
     (let f = factorOrder ! depth;
          fp = filterData p pf;
          fc = filterData c pf;
          parentTI = (case pti of
                        None \<Rightarrow> totalImpact (calculateImpactDecomposition fp fc p c)
                      | Some x \<Rightarrow> x);
          kids = sortChildren (map (\<lambda>v.
                   Node f v (AList.update f v pf)
                     (childMetrics (filterData fp [(f, v)]) (filterData fc [(f, v)])
                        (calculateImpactDecomposition
                           (filterData fp [(f, v)]) (filterData fc [(f, v)]) p c)
                        parentTI ri)
                     (buildUserPriorityTreeLevelV2 p c factorOrder tv (depth + 1)
                        (AList.update f v pf) ri
                        (Some (totalImpact (calculateImpactDecomposition
                           (filterData fp [(f, v)]) (filterData fc [(f, v)]) p c)))))
                   (getDistinctValuesForFactor (fp @ fc) f))
      in if kids = [] then None else Some kids)"
proof -
  let ?f = "factorOrder ! depth"
  let ?fp = "filterData p pf"
  let ?fc = "filterData c pf"
  let ?dv = "getDistinctValuesForFactor (?fp @ ?fc) ?f"
  let ?pti = "case pti of
                None \<Rightarrow> totalImpact (calculateImpactDecomposition ?fp ?fc p c)
              | Some x \<Rightarrow> x"
  let ?h = "\<lambda>v. Node ?f v (AList.update ?f v pf)
                     (childMetrics (filterData ?fp [(?f, v)]) (filterData ?fc [(?f, v)])
                        (calculateImpactDecomposition
                           (filterData ?fp [(?f, v)]) (filterData ?fc [(?f, v)]) p c)
                        ?pti ri)
                     (buildUserPriorityTreeLevelV2 p c factorOrder tv (depth + 1)
                        (AList.update ?f v pf) ri
                        (Some (totalImpact (calculateImpactDecomposition
                           (filterData ?fp [(?f, v)]) (filterData ?fc [(?f, v)]) p c))))"
  let ?g = "\<lambda>v. if 0 < length (filterData ?fp [(?f, v)]) \<or> 0 < length (filterData ?fc [(?f, v)])
                then [?h v] else []"
  have eq: "concat (map ?g ?dv) = map ?h ?dv"
    by (rule concat_map_singletons) (use child_nonempty in auto)
  show ?thesis
    apply (subst buildUserPriorityTreeLevelV2.simps)
    apply (simp only: Let_def eq)
    using assms apply simp
    done
qed

lemma auto_level_Some:
  assumes "buildAutoMaxSplitTreeLevelV2 p c tv depth pf fs ri pti = Some cs"
  shows "depth < 4 \<and> 10 \<le> length (filterData p pf) \<and> 10 \<le> length (filterData c pf)
         \<and> (\<exists>bs. findBestSplitByTotalImpact (filterData p pf) (filterData c pf) fs = Some bs)"
  using assms
  by (subst (asm) buildAutoMaxSplitTreeLevelV2.simps)
     (auto simp: Let_def split: if_splits option.splits)

lemma auto_level_unfold:
  assumes "depth < 4" "10 \<le> length (filterData p pf)" "10 \<le> length (filterData c pf)"
    and "findBestSplitByTotalImpact (filterData p pf) (filterData c pf) fs = Some bs"
  shows "buildAutoMaxSplitTreeLevelV2 p c tv depth pf fs ri pti =
     (let f = fst bs;
          fp = filterData p pf;
          fc = filterData c pf;
          parentTI = (case pti of
                        None \<Rightarrow> totalImpact (calculateImpactDecomposition fp fc p c)
                      | Some x \<Rightarrow> x);
          kids = sortChildren (map (\<lambda>v.
                   Node f v (AList.update f v pf)
                     (childMetrics (filterData fp [(f, v)]) (filterData fc [(f, v)])
                        (calculateImpactDecomposition
                           (filterData fp [(f, v)]) (filterData fc [(f, v)]) p c)
                        parentTI ri)
                     (buildAutoMaxSplitTreeLevelV2 p c tv (depth + 1)
                        (AList.update f v pf) fs ri
                        (Some (totalImpact (calculateImpactDecomposition
                           (filterData fp [(f, v)]) (filterData fc [(f, v)]) p c)))))
                   (getDistinctValuesForFactor (fp @ fc) f))
      in if kids = [] then None else Some kids)"
proof -
  let ?f = "fst bs"
  let ?fp = "filterData p pf"
  let ?fc = "filterData c pf"
  let ?dv = "getDistinctValuesForFactor (?fp @ ?fc) ?f"
  let ?pti = "case pti of
                None \<Rightarrow> totalImpact (calculateImpactDecomposition ?fp ?fc p c)
              | Some x \<Rightarrow> x"
  let ?h = "\<lambda>v. Node ?f v (AList.update ?f v pf)
                     (childMetrics (filterData ?fp [(?f, v)]) (filterData ?fc [(?f, v)])
                        (calculateImpactDecomposition
                           (filterData ?fp [(?f, v)]) (filterData ?fc [(?f, v)]) p c)
                        ?pti ri)
                     (buildAutoMaxSplitTreeLevelV2 p c tv (depth + 1)
                        (AList.update ?f v pf) fs ri
                        (Some (totalImpact (calculateImpactDecomposition
                           (filterData ?fp [(?f, v)]) (filterData ?fc [(?f, v)]) p c))))"
  let ?g = "\<lambda>v. if 0 < length (filterData ?fp [(?f, v)]) \<or> 0 < length (filterData ?fc [(?f, v)])
                then [?h v] else []"
  have eq: "concat (map ?g ?dv) = map ?h ?dv"
    by (rule concat_map_singletons) (use child_nonempty in auto)
  show ?thesis
    apply (subst buildAutoMaxSplitTreeLevelV2.simps)
    apply (simp only: Let_def assms(4) option.case eq)
    using assms(1-3) apply simp
    done
qed

lemma set_sortChildren: "set (sortChildren cs) = set cs"
  by (simp add: sortChildren_def)

lemma map_sortChildren_mset: "mset (map g (sortChildren cs)) = mset (map g cs)"
  by (simp add: sortChildren_def)

lemma distinct_map_sortChildren:
  "distinct (map g (sortChildren cs)) = distinct (map g cs)"
  using map_sortChildren_mset [of g cs] by (metis mset_eq_imp_distinct_iff)

lemma valuesPresent_iff: "v \<in> valuesPresent data f \<longleftrightarrow> (\<exists>r\<in>set data. field r f = Some v)"
  by (auto simp: valuesPresent_def List.map_filter_def intro: rev_image_eqI)

lemma set_getDistinct_valuesPresent:
  "set (getDistinctValuesForFactor data f) = valuesPresent data f"
  by (auto simp: set_getDistinctValuesForFactor valuesPresent_iff)

lemma childList_if: "childList (if kids = [] then None else Some kids) = kids"
  by (simp add: childList_def)

lemma priority_level_kids:
  assumes "depth < length factorOrder"
  obtains h where
    "childList (buildUserPriorityTreeLevelV2 p c factorOrder tv depth pf ri pti)
       = sortChildren (map h (getDistinctValuesForFactor
           (filterData p pf @ filterData c pf) (factorOrder ! depth)))"
    "\<And>v. nvalue (h v) = v"
    "\<And>v. nfactor (h v) = factorOrder ! depth"
    "\<And>v. nfilter (h v) = AList.update (factorOrder ! depth) v pf"
    "\<And>v. m_previousCount (nmetrics (h v))
           = length (filterData (filterData p pf) [(factorOrder ! depth, v)])"
    "\<And>v. m_currentCount (nmetrics (h v))
           = length (filterData (filterData c pf) [(factorOrder ! depth, v)])"
    "\<And>v. m_previousAmount (nmetrics (h v))
           = getTotalAmount (filterData (filterData p pf) [(factorOrder ! depth, v)])"
    "\<And>v. m_currentAmount (nmetrics (h v))
           = getTotalAmount (filterData (filterData c pf) [(factorOrder ! depth, v)])"
    "\<And>v. \<exists>x. nchildren (h v) = buildUserPriorityTreeLevelV2 p c factorOrder tv (depth + 1)
                                 (AList.update (factorOrder ! depth) v pf) ri (Some x)"
proof -
  let ?f = "factorOrder ! depth"
  let ?fp = "filterData p pf"
  let ?fc = "filterData c pf"
  let ?pti = "case pti of
                None \<Rightarrow> totalImpact (calculateImpactDecomposition ?fp ?fc p c)
              | Some x \<Rightarrow> x"
  let ?h = "\<lambda>v. Node ?f v (AList.update ?f v pf)
                     (childMetrics (filterData ?fp [(?f, v)]) (filterData ?fc [(?f, v)])
                        (calculateImpactDecomposition
                           (filterData ?fp [(?f, v)]) (filterData ?fc [(?f, v)]) p c)
                        ?pti ri)
                     (buildUserPriorityTreeLevelV2 p c factorOrder tv (depth + 1)
                        (AList.update ?f v pf) ri
                        (Some (totalImpact (calculateImpactDecomposition
                           (filterData ?fp [(?f, v)]) (filterData ?fc [(?f, v)]) p c))))"
  have "childList (buildUserPriorityTreeLevelV2 p c factorOrder tv depth pf ri pti)
       = sortChildren (map ?h (getDistinctValuesForFactor (?fp @ ?fc) ?f))"
    unfolding priority_level_unfold [OF assms] Let_def by (rule childList_if)
  then show ?thesis
    by (rule that) (auto simp add: childMetrics_def Let_def)
qed

lemma auto_level_kids:
  assumes "buildAutoMaxSplitTreeLevelV2 p c tv depth pf fs ri pti = Some cs"
  obtains h bs where
    "findBestSplitByTotalImpact (filterData p pf) (filterData c pf) fs = Some bs"
    "cs = sortChildren (map h (getDistinctValuesForFactor
           (filterData p pf @ filterData c pf) (fst bs)))"
    "\<And>v. nvalue (h v) = v"
    "\<And>v. nfactor (h v) = fst bs"
    "\<And>v. nfilter (h v) = AList.update (fst bs) v pf"
    "\<And>v. m_previousCount (nmetrics (h v))
           = length (filterData (filterData p pf) [(fst bs, v)])"
    "\<And>v. m_currentCount (nmetrics (h v))
           = length (filterData (filterData c pf) [(fst bs, v)])"
    "\<And>v. m_previousAmount (nmetrics (h v))
           = getTotalAmount (filterData (filterData p pf) [(fst bs, v)])"
    "\<And>v. m_currentAmount (nmetrics (h v))
           = getTotalAmount (filterData (filterData c pf) [(fst bs, v)])"
    "\<And>v. \<exists>x. nchildren (h v) = buildAutoMaxSplitTreeLevelV2 p c tv (depth + 1)
                                 (AList.update (fst bs) v pf) fs ri (Some x)"
proof -
  from auto_level_Some [OF assms] obtain bs where
    d: "depth < 4" "10 \<le> length (filterData p pf)" "10 \<le> length (filterData c pf)"
    and bs: "findBestSplitByTotalImpact (filterData p pf) (filterData c pf) fs = Some bs"
    by blast
  let ?f = "fst bs"
  let ?fp = "filterData p pf"
  let ?fc = "filterData c pf"
  let ?pti = "case pti of
                None \<Rightarrow> totalImpact (calculateImpactDecomposition ?fp ?fc p c)
              | Some x \<Rightarrow> x"
  let ?h = "\<lambda>v. Node ?f v (AList.update ?f v pf)
                     (childMetrics (filterData ?fp [(?f, v)]) (filterData ?fc [(?f, v)])
                        (calculateImpactDecomposition
                           (filterData ?fp [(?f, v)]) (filterData ?fc [(?f, v)]) p c)
                        ?pti ri)
                     (buildAutoMaxSplitTreeLevelV2 p c tv (depth + 1)
                        (AList.update ?f v pf) fs ri
                        (Some (totalImpact (calculateImpactDecomposition
                           (filterData ?fp [(?f, v)]) (filterData ?fc [(?f, v)]) p c))))"
  have "childList (buildAutoMaxSplitTreeLevelV2 p c tv depth pf fs ri pti)
       = sortChildren (map ?h (getDistinctValuesForFactor (?fp @ ?fc) ?f))"
    unfolding auto_level_unfold [OF d bs] Let_def by (rule childList_if)
  then have "cs = sortChildren (map ?h (getDistinctValuesForFactor (?fp @ ?fc) ?f))"
    using assms by (simp add: childList_def)
  with bs show ?thesis
    by (rule that) (auto simp add: childMetrics_def Let_def)
qed

lemma sorted_children_values:
  fixes h :: "cell \<Rightarrow> node"
  assumes "\<And>v. nvalue (h v) = v" "distinct dv"
  shows "distinct (map nvalue (sortChildren (map h dv)))"
    and "set (map nvalue (sortChildren (map h dv))) = set dv"
proof -
  have "map nvalue (map h dv) = dv"
    using assms(1) by (simp add: map_idI)
  then show "distinct (map nvalue (sortChildren (map h dv)))"
    using assms(2) by (simp add: distinct_map_sortChildren)
  have "set (map nvalue (sortChildren (map h dv))) = nvalue ` set (map h dv)"
    by (simp add: set_sortChildren)
  also have "\<dots> = set dv"
    using assms(1) by (simp add: image_image)
  finally show "set (map nvalue (sortChildren (map h dv))) = set dv" .
qed

text \<open>
  Claim C7. At every split, in priority mode and in auto-split mode, the children all
  carry the splitting factor, no two of them carry the same value, and their values are
  exactly the values that the factor takes in the filter-restricted rows of either period:
  each such value appears as one child, and a value that no row has gets no child.
\<close>

theorem child_completeness:
  "(depth < length factorOrder \<longrightarrow>
      (let cs = childList (buildUserPriorityTreeLevelV2 p c factorOrder tv depth pf ri pti);
           f = factorOrder ! depth
       in (\<forall>n\<in>set cs. nfactor n = f) \<and> distinct (map nvalue cs)
          \<and> set (map nvalue cs) = valuesPresent (filterData p pf @ filterData c pf) f))
 \<and> (buildAutoMaxSplitTreeLevelV2 p c tv depth pf fs ri' pti' = Some cs' \<longrightarrow>
      (\<exists>bs. findBestSplitByTotalImpact (filterData p pf) (filterData c pf) fs = Some bs
         \<and> (\<forall>n\<in>set cs'. nfactor n = fst bs) \<and> distinct (map nvalue cs')
         \<and> set (map nvalue cs')
             = valuesPresent (filterData p pf @ filterData c pf) (fst bs)))"
proof (intro conjI impI)
  assume "depth < length factorOrder"
  then obtain h where h:
    "childList (buildUserPriorityTreeLevelV2 p c factorOrder tv depth pf ri pti)
       = sortChildren (map h (getDistinctValuesForFactor
           (filterData p pf @ filterData c pf) (factorOrder ! depth)))"
    "\<And>v. nvalue (h v) = v" "\<And>v. nfactor (h v) = factorOrder ! depth"
    by (rule priority_level_kids [of depth factorOrder p c tv pf ri pti]) blast+
  show "let cs = childList (buildUserPriorityTreeLevelV2 p c factorOrder tv depth pf ri pti);
           f = factorOrder ! depth
       in (\<forall>n\<in>set cs. nfactor n = f) \<and> distinct (map nvalue cs)
          \<and> set (map nvalue cs) = valuesPresent (filterData p pf @ filterData c pf) f"
  proof -
    have "\<forall>n\<in>set (sortChildren (map h (getDistinctValuesForFactor
           (filterData p pf @ filterData c pf) (factorOrder ! depth)))).
            nfactor n = factorOrder ! depth"
      using h(3) by (auto simp: set_sortChildren)
    then show ?thesis
      unfolding Let_def h(1)
      using sorted_children_values [of h, OF h(2) distinct_getDistinctValuesForFactor]
      by (simp add: set_getDistinct_valuesPresent del: set_map)
  qed
next
  assume "buildAutoMaxSplitTreeLevelV2 p c tv depth pf fs ri' pti' = Some cs'"
  then obtain h bs where h:
    "findBestSplitByTotalImpact (filterData p pf) (filterData c pf) fs = Some bs"
    "cs' = sortChildren (map h (getDistinctValuesForFactor
           (filterData p pf @ filterData c pf) (fst bs)))"
    "\<And>v. nvalue (h v) = v" "\<And>v. nfactor (h v) = fst bs"
    by (rule auto_level_kids [of p c tv depth pf fs ri' pti' cs']) blast+
  show "\<exists>bs. findBestSplitByTotalImpact (filterData p pf) (filterData c pf) fs = Some bs
         \<and> (\<forall>n\<in>set cs'. nfactor n = fst bs) \<and> distinct (map nvalue cs')
         \<and> set (map nvalue cs')
             = valuesPresent (filterData p pf @ filterData c pf) (fst bs)"
  proof -
    have "\<forall>n\<in>set (sortChildren (map h (getDistinctValuesForFactor
           (filterData p pf @ filterData c pf) (fst bs)))). nfactor n = fst bs"
      using h(4) by (auto simp: set_sortChildren)
    then show ?thesis
      unfolding h(2)
      using sorted_children_values [of h, OF h(3) distinct_getDistinctValuesForFactor] h(1)
      by (simp add: set_getDistinct_valuesPresent del: set_map)
  qed
qed

section \<open>Factor selection and feature importance\<close>

lemma variance_nonneg: "0 \<le> calculateTotalImpactVariance p c f"
proof -
  have "0 \<le> sum_list (map (\<lambda>i. (i - m) * (i - m)) xs)" for m :: real and xs
    by (induction xs) simp_all
  then show ?thesis
    by (simp add: calculateTotalImpactVariance_def Let_def foldl_add_sum_list)
qed

lemma best_fold:
  fixes V :: "string \<Rightarrow> real"
  assumes "foldl (\<lambda>(bestSplit, bestVariance) factor.
             let variance = V factor
             in if variance > bestVariance then (Some (factor, variance), variance)
                else (bestSplit, bestVariance)) (None, 0) fs = (b, bv)"
  shows "(b = None \<and> bv = 0 \<and> (\<forall>f\<in>set fs. V f \<le> 0))
       \<or> (\<exists>i<length fs. b = Some (fs ! i, V (fs ! i)) \<and> bv = V (fs ! i) \<and> 0 < bv
             \<and> (\<forall>j<i. V (fs ! j) < bv) \<and> (\<forall>j<length fs. V (fs ! j) \<le> bv))"
  using assms
proof (induction fs arbitrary: b bv rule: rev_induct)
  case Nil
  then show ?case by simp
next
  case (snoc x xs)
  let ?step = "\<lambda>(bestSplit, bestVariance) factor.
             let variance = V factor
             in if variance > bestVariance then (Some (factor, variance), variance)
                else (bestSplit, bestVariance)"
  obtain b0 bv0 where acc: "foldl ?step (None, 0) xs = (b0, bv0)"
    by (cases "foldl ?step (None, 0) xs") auto
  note IH = snoc.IH [OF acc]
  have res: "(b, bv) = (if V x > bv0 then (Some (x, V x), V x) else (b0, bv0))"
    using snoc.prems acc by (simp add: Let_def)
  show ?case
  proof (cases "V x > bv0")
    case True
    with res have b: "b = Some (x, V x)" "bv = V x" by simp_all
    have ge: "0 \<le> bv0" using IH by auto
    have le: "\<forall>j<length xs. V (xs ! j) \<le> bv0"
      using IH by (auto simp: all_set_conv_all_nth)
    have "length xs < length (xs @ [x]) \<and> b = Some ((xs @ [x]) ! length xs, V ((xs @ [x]) ! length xs))
        \<and> bv = V ((xs @ [x]) ! length xs) \<and> 0 < bv
        \<and> (\<forall>j<length xs. V ((xs @ [x]) ! j) < bv)
        \<and> (\<forall>j<length (xs @ [x]). V ((xs @ [x]) ! j) \<le> bv)"
      using b True ge le by (auto simp: nth_append less_Suc_eq)
    then show ?thesis by blast
  next
    case False
    with res have b: "b = b0" "bv = bv0" by simp_all
    from IH show ?thesis
    proof
      assume "b0 = None \<and> bv0 = 0 \<and> (\<forall>f\<in>set xs. V f \<le> 0)"
      then show ?thesis using b False by auto
    next
      assume "\<exists>i<length xs. b0 = Some (xs ! i, V (xs ! i)) \<and> bv0 = V (xs ! i) \<and> 0 < bv0
             \<and> (\<forall>j<i. V (xs ! j) < bv0) \<and> (\<forall>j<length xs. V (xs ! j) \<le> bv0)"
      then obtain i where i: "i < length xs" "b0 = Some (xs ! i, V (xs ! i))"
        "bv0 = V (xs ! i)" "0 < bv0" "\<forall>j<i. V (xs ! j) < bv0"
        "\<forall>j<length xs. V (xs ! j) \<le> bv0"
        by blast
      have "i < length (xs @ [x]) \<and> b = Some ((xs @ [x]) ! i, V ((xs @ [x]) ! i))
        \<and> bv = V ((xs @ [x]) ! i) \<and> 0 < bv
        \<and> (\<forall>j<i. V ((xs @ [x]) ! j) < bv)
        \<and> (\<forall>j<length (xs @ [x]). V ((xs @ [x]) ! j) \<le> bv)"
        using i b False by (auto simp: nth_append less_Suc_eq)
      then show ?thesis by blast
    qed
  qed
qed

lemma findBestSplit_Some_factors:
  "findBestSplitByTotalImpact p c (Some fs) =
     fst (foldl (\<lambda>(bestSplit, bestVariance) factor.
             let variance = calculateTotalImpactVariance p c factor
             in if variance > bestVariance then (Some (factor, variance), variance)
                else (bestSplit, bestVariance)) (None, 0) fs)"
  by (simp add: findBestSplitByTotalImpact_def)

text \<open>
  Claim C4. Given a candidate list, \<open>findBestSplitByTotalImpact\<close> returns none exactly
  when every candidate's variance is zero (so also when there is no candidate). Otherwise
  it returns a candidate together with its variance, which is positive and is the
  greatest of all candidates' variances, and every candidate listed before it has a
  strictly smaller variance: among equals the first one met wins.
\<close>

theorem best_split_selection:
  "(findBestSplitByTotalImpact p c (Some fs) = None
      \<longleftrightarrow> (\<forall>f\<in>set fs. calculateTotalImpactVariance p c f = 0))
 \<and> (\<forall>f v. findBestSplitByTotalImpact p c (Some fs) = Some (f, v) \<longrightarrow>
        v = calculateTotalImpactVariance p c f \<and> 0 < v
        \<and> (\<exists>i<length fs. fs ! i = f
              \<and> (\<forall>j<i. calculateTotalImpactVariance p c (fs ! j) < v)
              \<and> (\<forall>j<length fs. calculateTotalImpactVariance p c (fs ! j) \<le> v)))"
proof -
  let ?V = "calculateTotalImpactVariance p c"
  obtain b bv where acc: "foldl (\<lambda>(bestSplit, bestVariance) factor.
             let variance = ?V factor
             in if variance > bestVariance then (Some (factor, variance), variance)
                else (bestSplit, bestVariance)) (None, 0) fs = (b, bv)"
    by (cases "foldl (\<lambda>(bestSplit, bestVariance) factor.
             let variance = ?V factor
             in if variance > bestVariance then (Some (factor, variance), variance)
                else (bestSplit, bestVariance)) (None, 0) fs") auto
  have res: "findBestSplitByTotalImpact p c (Some fs) = b"
    by (simp add: findBestSplit_Some_factors acc)
  from best_fold [of ?V, OF acc] show ?thesis
  proof
    assume "b = None \<and> bv = 0 \<and> (\<forall>f\<in>set fs. ?V f \<le> 0)"
    then show ?thesis
      using res variance_nonneg [of p c] by (auto simp: antisym)
  next
    assume "\<exists>i<length fs. b = Some (fs ! i, ?V (fs ! i)) \<and> bv = ?V (fs ! i) \<and> 0 < bv
             \<and> (\<forall>j<i. ?V (fs ! j) < bv) \<and> (\<forall>j<length fs. ?V (fs ! j) \<le> bv)"
    then obtain i where i: "i < length fs" "b = Some (fs ! i, ?V (fs ! i))"
      "0 < ?V (fs ! i)" "\<forall>j<i. ?V (fs ! j) < ?V (fs ! i)"
      "\<forall>j<length fs. ?V (fs ! j) \<le> ?V (fs ! i)"
      by auto
    have "\<not> (\<forall>f\<in>set fs. ?V f = 0)"
      using i(1,3) by (metis less_irrefl nth_mem)
    then show ?thesis
      using res i by auto
  qed
qed

lemma update_fresh: "k \<notin> fst ` set al \<Longrightarrow> AList.update k v al = al @ [(k, v)]"
  by (induction al) auto

lemma importance_fold:
  fixes V :: "string \<Rightarrow> real"
  assumes "distinct fs" "set fs \<inter> fst ` set imp = {}"
  shows "foldl (\<lambda>(importance, totalImportance) factor.
            (AList.update factor (max 0 (V factor)) importance,
             totalImportance + max 0 (V factor))) (imp, t) fs
         = (imp @ map (\<lambda>f. (f, max 0 (V f))) fs, t + (\<Sum>f\<leftarrow>fs. max 0 (V f)))"
  using assms
proof (induction fs arbitrary: imp t)
  case Nil
  then show ?case by simp
next
  case (Cons f fs)
  have fresh: "f \<notin> fst ` set imp" using Cons.prems(2) by auto
  have d: "distinct fs" and nf: "f \<notin> set fs" using Cons.prems(1) by auto
  have disj: "set fs \<inter> fst ` set (imp @ [(f, max 0 (V f))]) = {}"
    using Cons.prems(2) nf by auto
  show ?case
    using Cons.IH [OF d disj, of "t + max 0 (V f)"]
    by (simp add: update_fresh [OF fresh] add.assoc)
qed

lemma update_present:
  "k \<in> set fs \<Longrightarrow> distinct fs \<Longrightarrow>
     AList.update k e (map (\<lambda>f. (f, g f)) fs) = map (\<lambda>f. (f, (g(k := e)) f)) fs"
  by (induction fs) auto

lemma equal_weight_fold:
  "set ks \<subseteq> set fs \<Longrightarrow> distinct fs \<Longrightarrow>
     foldl (\<lambda>importance factor. AList.update factor e importance)
       (map (\<lambda>f. (f, g f)) fs) ks
     = map (\<lambda>f. (f, if f \<in> set ks then e else g f)) fs"
proof (induction ks arbitrary: g)
  case Nil
  then show ?case by simp
next
  case (Cons k ks)
  have k: "k \<in> set fs" and sub: "set ks \<subseteq> set fs" using Cons.prems(1) by auto
  show ?case
    using Cons.IH [OF sub Cons.prems(2), of "g(k := e)"]
    by (simp add: update_present [OF k Cons.prems(2)])
qed

lemma sum_list_divide: "(\<Sum>f\<leftarrow>fs. g f / (t::real)) = (\<Sum>f\<leftarrow>fs. g f) / t"
  by (induction fs) (simp_all add: add_divide_distrib)

lemma sum_list_map_nonneg:
  "(\<And>f. f \<in> set fs \<Longrightarrow> 0 \<le> g f) \<Longrightarrow> (0::real) \<le> (\<Sum>f\<leftarrow>fs. g f)"
  by (induction fs) simp_all

lemma sum_list_nonneg_zero:
  "(\<And>f. f \<in> set fs \<Longrightarrow> 0 \<le> g f) \<Longrightarrow> (\<Sum>f\<leftarrow>fs. g f) = (0::real)
     \<Longrightarrow> f \<in> set fs \<Longrightarrow> g f = 0"
proof (induction fs)
  case Nil
  then show ?case by simp
next
  case (Cons a fs)
  have a: "0 \<le> g a" using Cons.prems(1) by simp
  have s: "0 \<le> (\<Sum>f\<leftarrow>fs. g f)"
    using Cons.prems(1) by (simp add: sum_list_map_nonneg)
  from Cons.prems(2) a s have "g a = 0" "(\<Sum>f\<leftarrow>fs. g f) = 0" by simp_all
  with Cons show ?case by auto
qed

lemma feature_importance_distinct:
  assumes "distinct fs"
  shows "calculateTotalImpactFeatureImportance p c (Some fs) =
     (let V = calculateTotalImpactVariance p c; tot = (\<Sum>f\<leftarrow>fs. V f)
      in if tot > 0 then map (\<lambda>f. (f, V f / tot)) fs
         else map (\<lambda>f. (f, 1 / real (length fs))) fs)"
proof -
  let ?V = "calculateTotalImpactVariance p c"
  have mx: "max 0 (?V f) = ?V f" for f
    using variance_nonneg [of p c f] by simp
  have fold: "foldl (\<lambda>(importance, totalImportance) factor.
            (AList.update factor (max 0 (?V factor)) importance,
             totalImportance + max 0 (?V factor))) ([], 0) fs
         = ([] @ map (\<lambda>f. (f, max 0 (?V f))) fs, 0 + (\<Sum>f\<leftarrow>fs. max 0 (?V f)))"
    by (rule importance_fold [OF assms]) simp
  have eq: "foldl (\<lambda>importance factor. AList.update factor e importance)
       (map (\<lambda>f. (f, ?V f)) fs) fs = map (\<lambda>f. (f, e)) fs" for e
    using equal_weight_fold [of fs fs e ?V, OF _ assms] by simp
  show ?thesis
    unfolding calculateTotalImpactFeatureImportance_def
    apply (simp only: option.case Let_def fold prod.case)
    apply (simp add: mx eq o_def)
    done
qed

text \<open>
  On a candidate list without repeated factors the normalisation holds. When some
  candidate has a nonzero variance, the feature importance maps each candidate to its
  variance divided by the sum of all variances, so that the weights are non-negative,
  proportional to the variances and sum to 1; when every candidate has zero variance and
  the list is not empty, it maps each candidate to 1 / (number of candidates).
\<close>

lemma feature_importance_normalized:
  "distinct fs \<longrightarrow>
     (let r = calculateTotalImpactFeatureImportance p c (Some fs);
          V = calculateTotalImpactVariance p c;
          tot = (\<Sum>f\<leftarrow>fs. V f)
      in ((\<exists>f\<in>set fs. V f \<noteq> 0) \<longrightarrow>
            r = map (\<lambda>f. (f, V f / tot)) fs \<and> list_all (\<lambda>(k, w). 0 \<le> w) r
            \<and> sum_list (map snd r) = 1)
       \<and> ((\<forall>f\<in>set fs. V f = 0) \<and> fs \<noteq> [] \<longrightarrow>
            r = map (\<lambda>f. (f, 1 / real (length fs))) fs \<and> sum_list (map snd r) = 1))"
proof
  assume d: "distinct fs"
  let ?V = "calculateTotalImpactVariance p c"
  let ?tot = "\<Sum>f\<leftarrow>fs. ?V f"
  have nn: "0 \<le> ?V f" for f by (rule variance_nonneg)
  have tot_nn: "0 \<le> ?tot" by (simp add: sum_list_map_nonneg nn)
  have pos: "0 < ?tot" if "\<exists>f\<in>set fs. ?V f \<noteq> 0"
  proof (rule ccontr)
    assume "\<not> 0 < ?tot"
    with tot_nn have "?tot = 0" by simp
    then have "\<forall>f\<in>set fs. ?V f = 0"
      using sum_list_nonneg_zero [of fs ?V] nn by blast
    with that show False by blast
  qed
  have zero: "?tot = 0" if "\<forall>f\<in>set fs. ?V f = 0"
    using that by (induction fs) simp_all
  have A: "(\<exists>f\<in>set fs. ?V f \<noteq> 0) \<longrightarrow>
      calculateTotalImpactFeatureImportance p c (Some fs) = map (\<lambda>f. (f, ?V f / ?tot)) fs
      \<and> list_all (\<lambda>(k, w). 0 \<le> w) (map (\<lambda>f. (f, ?V f / ?tot)) fs)
      \<and> sum_list (map snd (map (\<lambda>f. (f, ?V f / ?tot)) fs)) = 1"
  proof
    assume "\<exists>f\<in>set fs. ?V f \<noteq> 0"
    then have p: "0 < ?tot" by (rule pos)
    have "list_all (\<lambda>(k, w). 0 \<le> w) (map (\<lambda>f. (f, ?V f / ?tot)) fs)"
      using nn tot_nn by (simp add: list_all_iff)
    moreover have "sum_list (map snd (map (\<lambda>f. (f, ?V f / ?tot)) fs)) = 1"
      using p by (simp add: o_def sum_list_divide)
    ultimately show "calculateTotalImpactFeatureImportance p c (Some fs)
        = map (\<lambda>f. (f, ?V f / ?tot)) fs
      \<and> list_all (\<lambda>(k, w). 0 \<le> w) (map (\<lambda>f. (f, ?V f / ?tot)) fs)
      \<and> sum_list (map snd (map (\<lambda>f. (f, ?V f / ?tot)) fs)) = 1"
      using p by (simp add: feature_importance_distinct [OF d] Let_def)
  qed
  have B: "(\<forall>f\<in>set fs. ?V f = 0) \<and> fs \<noteq> [] \<longrightarrow>
      calculateTotalImpactFeatureImportance p c (Some fs)
        = map (\<lambda>f. (f, 1 / real (length fs))) fs
      \<and> sum_list (map snd (map (\<lambda>f. (f, 1 / real (length fs))) fs)) = 1"
  proof
    assume h: "(\<forall>f\<in>set fs. ?V f = 0) \<and> fs \<noteq> []"
    then have z: "?tot = 0" using zero by blast
    have "sum_list (map snd (map (\<lambda>f. (f, 1 / real (length fs))) fs)) = 1"
      using h by (simp add: o_def sum_list_triv)
    then show "calculateTotalImpactFeatureImportance p c (Some fs)
        = map (\<lambda>f. (f, 1 / real (length fs))) fs
      \<and> sum_list (map snd (map (\<lambda>f. (f, 1 / real (length fs))) fs)) = 1"
      using z by (simp add: feature_importance_distinct [OF d] Let_def)
  qed
  show "let r = calculateTotalImpactFeatureImportance p c (Some fs);
          V = calculateTotalImpactVariance p c;
          tot = (\<Sum>f\<leftarrow>fs. V f)
      in ((\<exists>f\<in>set fs. V f \<noteq> 0) \<longrightarrow>
            r = map (\<lambda>f. (f, V f / tot)) fs \<and> list_all (\<lambda>(k, w). 0 \<le> w) r
            \<and> sum_list (map snd r) = 1)
       \<and> ((\<forall>f\<in>set fs. V f = 0) \<and> fs \<noteq> [] \<longrightarrow>
            r = map (\<lambda>f. (f, 1 / real (length fs))) fs \<and> sum_list (map snd r) = 1)"
    unfolding Let_def
  proof (intro conjI impI)
    assume h: "\<exists>f\<in>set fs. ?V f \<noteq> 0"
    from A h have a: "calculateTotalImpactFeatureImportance p c (Some fs)
        = map (\<lambda>f. (f, ?V f / ?tot)) fs"
      "list_all (\<lambda>(k, w). 0 \<le> w) (map (\<lambda>f. (f, ?V f / ?tot)) fs)"
      "sum_list (map snd (map (\<lambda>f. (f, ?V f / ?tot)) fs)) = 1"
      by blast+
    show "calculateTotalImpactFeatureImportance p c (Some fs)
        = map (\<lambda>f. (f, ?V f / ?tot)) fs"
      by (rule a(1))
    show "list_all (\<lambda>(k, w). 0 \<le> w) (calculateTotalImpactFeatureImportance p c (Some fs))"
      unfolding a(1) by (rule a(2))
    show "sum_list (map snd (calculateTotalImpactFeatureImportance p c (Some fs))) = 1"
      unfolding a(1) by (rule a(3))
  next
    assume h: "(\<forall>f\<in>set fs. ?V f = 0) \<and> fs \<noteq> []"
    from B h have b: "calculateTotalImpactFeatureImportance p c (Some fs)
        = map (\<lambda>f. (f, 1 / real (length fs))) fs"
      "sum_list (map snd (map (\<lambda>f. (f, 1 / real (length fs))) fs)) = 1"
      by blast+
    show "calculateTotalImpactFeatureImportance p c (Some fs)
        = map (\<lambda>f. (f, 1 / real (length fs))) fs"
      by (rule b(1))
    show "sum_list (map snd (calculateTotalImpactFeatureImportance p c (Some fs))) = 1"
      unfolding b(1) by (rule b(2))
  qed
qed

section \<open>The properties on the example portfolios\<close>

lemma small_variances:
  "calculateTotalImpactVariance smallPrev smallCurr ''tier'' = 9/10000"
  "calculateTotalImpactVariance smallPrev smallCurr ''x'' = 0"
  "calculateTotalImpactVariance smallPrev smallPrev ''tier'' = 0"
  "calculateTotalImpactVariance smallPrev smallPrev ''x'' = 0"
  by code_simp+

theorem best_split_selection_witness:
  "findBestSplitByTotalImpact smallPrev smallCurr (Some [''x'', ''tier'', ''tier''])
     = Some (''tier'', 9/10000)
   \<and> findBestSplitByTotalImpact smallPrev smallPrev (Some [''x'', ''tier'']) = None
   \<and> calculateTotalImpactVariance smallPrev smallCurr ''x'' < 9/10000"
proof -
  have ev: "findBestSplitByTotalImpact smallPrev smallCurr (Some [''x'', ''tier'', ''tier''])
     = Some (''tier'', 9/10000)"
    by (simp add: findBestSplit_Some_factors small_variances Let_def)
  have z: "\<forall>f\<in>set [''x'', ''tier'']. calculateTotalImpactVariance smallPrev smallPrev f = 0"
    by (simp add: small_variances)
  show ?thesis
    using best_split_selection [of smallPrev smallCurr "[''x'', ''tier'', ''tier'']"]
      best_split_selection [of smallPrev smallPrev "[''x'', ''tier'']"] ev z
    by (simp add: small_variances)
qed

text \<open>
  Claim C9. Whenever some candidate factor has a nonzero variance, the feature importance
  assigns weights that are proportional to the variances and sum to 1. The code divides by
  \<open>totalImportance\<close> to that end, but with the candidate list \<open>[tier, tier]\<close> the
  variance of \<open>tier\<close>, which is 9/10000, is added to the total twice and stored once:
  the result holds the single weight 1/2.
\<close>

theorem duplicate_candidates_not_normalized:
  "calculateTotalImpactVariance smallPrev smallCurr ''tier'' = 9/10000
   \<and> calculateTotalImpactFeatureImportance smallPrev smallCurr (Some [''tier'', ''tier''])
       = [(''tier'', 1/2)]
   \<and> sum_list (map snd (calculateTotalImpactFeatureImportance smallPrev smallCurr
         (Some [''tier'', ''tier'']))) = 1/2"
  by (simp add: calculateTotalImpactFeatureImportance_def small_variances Let_def)

lemma feature_importance_normalized_example:
  "distinct [''tier'', ''x'']
   \<and> calculateTotalImpactFeatureImportance smallPrev smallCurr (Some [''tier'', ''x''])
       = [(''tier'', 1), (''x'', 0)]
   \<and> calculateTotalImpactFeatureImportance smallPrev smallPrev (Some [''tier'', ''x''])
       = [(''tier'', 1/2), (''x'', 1/2)]
   \<and> sum_list (map snd (calculateTotalImpactFeatureImportance smallPrev smallCurr
         (Some [''tier'', ''x'']))) = 1"
  using feature_importance_normalized [of "[''tier'', ''x'']" smallPrev smallCurr]
    feature_importance_normalized [of "[''tier'', ''x'']" smallPrev smallPrev]
  by (simp add: small_variances Let_def)

section \<open>When the selector finds a factor\<close>

lemma findBestSplit_as_fold:
  assumes "findBestSplitByTotalImpact p c af = Some bs"
  obtains fs where "findBestSplitByTotalImpact p c af =
     fst (foldl (\<lambda>(bestSplit, bestVariance) factor.
             let variance = calculateTotalImpactVariance p c factor
             in if variance > bestVariance then (Some (factor, variance), variance)
                else (bestSplit, bestVariance)) (None, 0) fs)"
proof (cases af)
  case (Some fs)
  then show ?thesis using that [of fs] by (simp add: findBestSplit_Some_factors)
next
  case None
  show ?thesis
  proof (cases "p @ c = []")
    case True
    with None assms show ?thesis by (simp add: findBestSplitByTotalImpact_def)
  next
    case False
    then have ne: "(length (p @ c) = 0) = False" by simp
    have "findBestSplitByTotalImpact p c af =
     fst (foldl (\<lambda>(bestSplit, bestVariance) factor.
             let variance = calculateTotalImpactVariance p c factor
             in if variance > bestVariance then (Some (factor, variance), variance)
                else (bestSplit, bestVariance)) (None, 0) (detectFactors (p @ c)))"
      unfolding None findBestSplitByTotalImpact_def
      by (simp only: option.case Let_def ne if_False)
    then show ?thesis by (rule that)
  qed
qed

lemma findBestSplit_positive:
  assumes "findBestSplitByTotalImpact p c af = Some bs"
  shows "0 < calculateTotalImpactVariance p c (fst bs)"
proof -
  let ?V = "calculateTotalImpactVariance p c"
  let ?step = "\<lambda>(bestSplit, bestVariance) factor.
             let variance = ?V factor
             in if variance > bestVariance then (Some (factor, variance), variance)
                else (bestSplit, bestVariance)"
  from assms obtain fs where fs: "findBestSplitByTotalImpact p c af
      = fst (foldl ?step (None, 0) fs)"
    by (rule findBestSplit_as_fold)
  obtain b bv where acc: "foldl ?step (None, 0) fs = (b, bv)"
    by (cases "foldl ?step (None, 0) fs") auto
  have b: "b = Some bs" using assms fs acc by simp
  from best_fold [of ?V, OF acc] b show ?thesis by auto
qed

lemma findBestSplit_exists:
  assumes "f \<in> set fs" "calculateTotalImpactVariance p c f \<noteq> 0"
  shows "findBestSplitByTotalImpact p c (Some fs) \<noteq> None"
proof -
  let ?V = "calculateTotalImpactVariance p c"
  let ?step = "\<lambda>(bestSplit, bestVariance) factor.
             let variance = ?V factor
             in if variance > bestVariance then (Some (factor, variance), variance)
                else (bestSplit, bestVariance)"
  obtain b bv where acc: "foldl ?step (None, 0) fs = (b, bv)"
    by (cases "foldl ?step (None, 0) fs") auto
  have "0 < ?V f" using assms(2) variance_nonneg [of p c f] by simp
  with best_fold [of ?V, OF acc] assms(1) have "b \<noteq> None" by auto
  then show ?thesis by (simp add: findBestSplit_Some_factors acc)
qed

lemma variance_no_values:
  "getDistinctValuesForFactor (p @ c) f = [] \<Longrightarrow> calculateTotalImpactVariance p c f = 0"
  by (simp add: calculateTotalImpactVariance_def)

lemma sortChildren_Nil_iff: "sortChildren cs = [] \<longleftrightarrow> cs = []"
  using length_sort [of "\<lambda>c. - \<bar>m_totalImpactBps (nmetrics c)\<bar>" cs]
  unfolding sortChildren_def by (metis length_0_conv)

lemma auto_level_splits:
  assumes "depth < 4" "10 \<le> length (filterData p pf)" "10 \<le> length (filterData c pf)"
    and "findBestSplitByTotalImpact (filterData p pf) (filterData c pf) fs = Some bs"
  shows "buildAutoMaxSplitTreeLevelV2 p c tv depth pf fs ri pti \<noteq> None"
proof -
  have "0 < calculateTotalImpactVariance (filterData p pf) (filterData c pf) (fst bs)"
    using assms(4) by (rule findBestSplit_positive)
  then have "getDistinctValuesForFactor (filterData p pf @ filterData c pf) (fst bs) \<noteq> []"
    using variance_no_values by fastforce
  then show ?thesis
    unfolding auto_level_unfold [OF assms] Let_def
    by (simp add: sortChildren_Nil_iff)
qed

section \<open>Depth and sample-size limits of the auto-split tree\<close>

lemma foldr_max_le:
  "(\<And>x. x \<in> set xs \<Longrightarrow> g x \<le> (k::nat)) \<Longrightarrow> foldr max (map g xs) 0 \<le> k"
  by (induction xs) simp_all

lemma auto_subtree_bounds:
  assumes "buildAutoMaxSplitTreeLevelV2 p c tv depth pf fs ri pti = Some cs" "n \<in> set cs"
  shows "levelsBelow n + depth < 4
       \<and> (\<forall>m\<in>set (subtree n). nchildren m \<noteq> None \<longrightarrow>
             10 \<le> length (filterData p (nfilter m)) \<and> 10 \<le> length (filterData c (nfilter m)))"
  using assms
proof (induction "4 - depth" arbitrary: depth pf pti cs n)
  case 0
  then show ?case using auto_level_Some by fastforce
next
  case (Suc k)
  show ?case
  proof (rule auto_level_kids [OF Suc.prems(1)])
  fix h bs
  assume h1: "cs = sortChildren (map h (getDistinctValuesForFactor
           (filterData p pf @ filterData c pf) (fst bs)))"
    and h2: "\<And>v. nfilter (h v) = AList.update (fst bs) v pf"
    and h3: "\<And>v. \<exists>x. nchildren (h v) = buildAutoMaxSplitTreeLevelV2 p c tv (depth + 1)
                                 (AList.update (fst bs) v pf) fs ri (Some x)"
  have d: "depth < 4" using auto_level_Some [OF Suc.prems(1)] by simp
  from Suc.prems(2) h1 obtain v where v: "n = h v"
    by (auto simp: set_sortChildren)
  from h3 obtain x where x: "nchildren n = buildAutoMaxSplitTreeLevelV2 p c tv (depth + 1)
                                 (nfilter n) fs ri (Some x)"
    unfolding v h2 by blast
  obtain f' v' fl m' ch where n: "n = Node f' v' fl m' ch" by (cases n)
  show ?thesis
  proof (cases ch)
    case None
    with n d show ?thesis by simp
  next
    case (Some cs2)
    with n x have rec: "buildAutoMaxSplitTreeLevelV2 p c tv (depth + 1) fl fs ri (Some x)
        = Some cs2"
      by simp
    have k: "k = 4 - (depth + 1)" using Suc.hyps(2) by simp
    note IH = Suc.hyps(1) [OF k rec]
    from auto_level_Some [OF rec] have
      d2: "depth + 1 < 4" and len: "10 \<le> length (filterData p fl)"
        "10 \<le> length (filterData c fl)"
      by simp_all
    have "foldr max (map levelsBelow cs2) 0 \<le> 2 - depth"
      by (rule foldr_max_le) (use IH d2 in fastforce)
    then have lv: "levelsBelow n + depth < 4"
      using n Some d2 by simp
    have sub: "\<forall>m\<in>set (subtree n). nchildren m \<noteq> None \<longrightarrow>
             10 \<le> length (filterData p (nfilter m)) \<and> 10 \<le> length (filterData c (nfilter m))"
      using n Some len IH by auto
    from lv sub show ?thesis by blast
  qed
  qed
qed

text \<open>
  Claim C6. The auto-split tree built from two collections has a single root; no node lies
  more than 4 splitting levels below it; and every node that has children, the root
  included, has at least 10 previous-period rows and at least 10 current-period rows
  matching its filter.
\<close>

theorem auto_tree_depth_and_samples:
  "\<exists>root. buildAutoMaxSplitTreeV2 (Some p) (Some c) tv 0 [] fs = Inr (Some [root])
     \<and> levelsBelow root \<le> 4
     \<and> (\<forall>n\<in>set (subtree root). nchildren n \<noteq> None \<longrightarrow>
           10 \<le> length (filterData p (nfilter n)) \<and> 10 \<le> length (filterData c (nfilter n)))"
proof -
  let ?ri = "calculateWeightedROI c - calculateWeightedROI p"
  let ?kids = "buildAutoMaxSplitTreeLevelV2 p c tv 0 [] fs ?ri None"
  let ?root = "Node ''root'' (Str ''Portfolio ROI'') [] (rootMetrics p c) ?kids"
  have eq: "buildAutoMaxSplitTreeV2 (Some p) (Some c) tv 0 [] fs = Inr (Some [?root])"
    by (simp add: buildAutoMaxSplitTreeV2_def Let_def)
  have "levelsBelow ?root \<le> 4
     \<and> (\<forall>n\<in>set (subtree ?root). nchildren n \<noteq> None \<longrightarrow>
           10 \<le> length (filterData p (nfilter n)) \<and> 10 \<le> length (filterData c (nfilter n)))"
  proof (cases ?kids)
    case None
    then show ?thesis by simp
  next
    case (Some cs)
    note B = auto_subtree_bounds [OF Some]
    have "foldr max (map levelsBelow cs) 0 \<le> 3"
      by (rule foldr_max_le) (use B in fastforce)
    moreover have "10 \<le> length (filterData p []) \<and> 10 \<le> length (filterData c [])"
      using auto_level_Some [OF Some] by simp
    ultimately show ?thesis
      using Some B by auto
  qed
  with eq show ?thesis by blast
qed

section \<open>Rows without a value for the splitting factor\<close>

lemma update_mem: "(k, v) \<in> set (AList.update k v al)"
  by (induction al) auto

lemma no_child_matches:
  assumes "field r f = None"
  shows "filterData [r] (AList.update f v pf) = []"
proof -
  have "\<not> list_all (\<lambda>(k, v). field r k = Some v) (AList.update f v pf)"
    using assms update_mem [of f v pf] by (force simp: list_all_iff)
  then show ?thesis by (simp add: filterData_def)
qed

lemma sum_list_sortChildren:
  fixes g :: "node \<Rightarrow> 'a::comm_monoid_add"
  shows "sum_list (map g (sortChildren cs)) = sum_list (map g cs)"
  using map_sortChildren_mset [of g cs] by (metis sum_mset_sum_list)

lemma sum_list_single:
  fixes k :: "'a::comm_monoid_add"
  shows "distinct vs \<Longrightarrow> a \<in> set vs \<Longrightarrow> (\<Sum>v\<leftarrow>vs. if a = v then k else 0) = k"
proof (induction vs)
  case Nil
  then show ?case by simp
next
  case (Cons v vs)
  show ?case
  proof (cases "a = v")
    case True
    then have "a \<notin> set vs" using Cons.prems(1) by simp
    then have "(\<Sum>v\<leftarrow>vs. if a = v then k else 0) = (\<Sum>v\<leftarrow>vs. 0)"
      by (intro arg_cong [where f = sum_list] map_cong) auto
    with True show ?thesis by simp
  next
    case False
    with Cons show ?thesis by simp
  qed
qed

lemma sum_by_value:
  fixes w :: "'r \<Rightarrow> 'a::comm_monoid_add"
  assumes "distinct vs" "\<And>r v. r \<in> set xs \<Longrightarrow> g r = Some v \<Longrightarrow> v \<in> set vs"
  shows "(\<Sum>v\<leftarrow>vs. \<Sum>r\<leftarrow>filter (\<lambda>r. g r = Some v) xs. w r)
       = (\<Sum>r\<leftarrow>filter (\<lambda>r. g r \<noteq> None) xs. w r)"
  using assms(2)
proof (induction xs)
  case Nil
  then show ?case by simp
next
  case (Cons x xs)
  have IH: "(\<Sum>v\<leftarrow>vs. \<Sum>r\<leftarrow>filter (\<lambda>r. g r = Some v) xs. w r)
       = (\<Sum>r\<leftarrow>filter (\<lambda>r. g r \<noteq> None) xs. w r)"
    by (rule Cons.IH) (use Cons.prems in auto)
  have head: "(\<Sum>v\<leftarrow>vs. if g x = Some v then w x else 0)
        = (if g x \<noteq> None then w x else 0)"
  proof (cases "g x")
    case None
    then show ?thesis by simp
  next
    case (Some a)
    then have "a \<in> set vs" using Cons.prems [of x a] by simp
    then show ?thesis
      using Some sum_list_single [OF assms(1), of a "w x"] by simp
  qed
  have "(\<Sum>v\<leftarrow>vs. \<Sum>r\<leftarrow>filter (\<lambda>r. g r = Some v) (x # xs). w r)
      = (\<Sum>v\<leftarrow>vs. (if g x = Some v then w x else 0)
                  + (\<Sum>r\<leftarrow>filter (\<lambda>r. g r = Some v) xs. w r))"
    by (intro arg_cong [where f = sum_list] map_cong) auto
  also have "\<dots> = (\<Sum>v\<leftarrow>vs. if g x = Some v then w x else 0)
                  + (\<Sum>v\<leftarrow>vs. \<Sum>r\<leftarrow>filter (\<lambda>r. g r = Some v) xs. w r)"
    by (simp add: sum_list_addf)
  also have "\<dots> = (\<Sum>r\<leftarrow>filter (\<lambda>r. g r \<noteq> None) (x # xs). w r)"
    by (simp add: head IH)
  finally show ?case .
qed

lemma length_as_sum: "length xs = (\<Sum>r\<leftarrow>xs. Suc 0)"
  by (induction xs) simp_all

lemma children_totals:
  fixes h :: "cell \<Rightarrow> node" and cnt :: "node \<Rightarrow> nat" and amt :: "node \<Rightarrow> real"
  assumes "\<And>v. cnt (h v) = length (filterData xs [(f, v)])"
    and "\<And>v. amt (h v) = getTotalAmount (filterData xs [(f, v)])"
    and "set xs \<subseteq> set data"
  shows "(\<Sum>n\<leftarrow>sortChildren (map h (getDistinctValuesForFactor data f)). cnt n)
          = length (filter (\<lambda>r. field r f \<noteq> None) xs)"
    and "(\<Sum>n\<leftarrow>sortChildren (map h (getDistinctValuesForFactor data f)). amt n)
          = getTotalAmount (filter (\<lambda>r. field r f \<noteq> None) xs)"
proof -
  let ?dv = "getDistinctValuesForFactor data f"
  have d: "distinct ?dv" by (rule distinct_getDistinctValuesForFactor)
  have cover: "\<And>r v. r \<in> set xs \<Longrightarrow> field r f = Some v \<Longrightarrow> v \<in> set ?dv"
    using assms(3) by (auto simp: set_getDistinctValuesForFactor)
  have "(\<Sum>n\<leftarrow>sortChildren (map h ?dv). cnt n)
      = (\<Sum>v\<leftarrow>?dv. \<Sum>r\<leftarrow>filter (\<lambda>r. field r f = Some v) xs. Suc 0)"
    by (simp add: sum_list_sortChildren o_def assms(1) filterData_single
        length_as_sum [symmetric])
  also have "\<dots> = (\<Sum>r\<leftarrow>filter (\<lambda>r. field r f \<noteq> None) xs. Suc 0)"
    by (rule sum_by_value [OF d cover])
  finally show "(\<Sum>n\<leftarrow>sortChildren (map h ?dv). cnt n)
      = length (filter (\<lambda>r. field r f \<noteq> None) xs)"
    by (simp add: length_as_sum [symmetric])
  have "(\<Sum>n\<leftarrow>sortChildren (map h ?dv). amt n)
      = (\<Sum>v\<leftarrow>?dv. \<Sum>r\<leftarrow>filter (\<lambda>r. field r f = Some v) xs. amountOf r)"
    by (simp add: sum_list_sortChildren o_def assms(2) filterData_single getTotalAmount_sum)
  also have "\<dots> = (\<Sum>r\<leftarrow>filter (\<lambda>r. field r f \<noteq> None) xs. amountOf r)"
    by (rule sum_by_value [OF d cover])
  finally show "(\<Sum>n\<leftarrow>sortChildren (map h ?dv). amt n)
      = getTotalAmount (filter (\<lambda>r. field r f \<noteq> None) xs)"
    by (simp add: getTotalAmount_sum)
qed

lemma split_accounts:
  fixes h :: "cell \<Rightarrow> node"
  assumes cs: "cs = sortChildren (map h (getDistinctValuesForFactor (fp @ fc) f))"
    and fl: "\<And>v. nfilter (h v) = AList.update f v pf"
    and v: "\<And>v. nvalue (h v) = v"
    and pc: "\<And>v. m_previousCount (nmetrics (h v)) = length (filterData fp [(f, v)])"
    and cc: "\<And>v. m_currentCount (nmetrics (h v)) = length (filterData fc [(f, v)])"
    and pa: "\<And>v. m_previousAmount (nmetrics (h v)) = getTotalAmount (filterData fp [(f, v)])"
    and ca: "\<And>v. m_currentAmount (nmetrics (h v)) = getTotalAmount (filterData fc [(f, v)])"
  shows "(\<forall>n\<in>set cs. \<forall>r. field r f = None \<longrightarrow> filterData [r] (nfilter n) = [])
       \<and> (\<forall>n\<in>set cs. m_previousCount (nmetrics n) = length (filterData fp [(f, nvalue n)])
                    \<and> m_currentCount (nmetrics n) = length (filterData fc [(f, nvalue n)]))
       \<and> (\<Sum>n\<leftarrow>cs. m_previousCount (nmetrics n)) = length (filter (\<lambda>r. field r f \<noteq> None) fp)
       \<and> (\<Sum>n\<leftarrow>cs. m_currentCount (nmetrics n)) = length (filter (\<lambda>r. field r f \<noteq> None) fc)
       \<and> (\<Sum>n\<leftarrow>cs. m_previousAmount (nmetrics n))
           = getTotalAmount (filter (\<lambda>r. field r f \<noteq> None) fp)
       \<and> (\<Sum>n\<leftarrow>cs. m_currentAmount (nmetrics n))
           = getTotalAmount (filter (\<lambda>r. field r f \<noteq> None) fc)"
proof -
  have img: "\<And>n. n \<in> set cs \<Longrightarrow> \<exists>v. n = h v"
    unfolding cs by (auto simp: set_sortChildren)
  have 1: "\<forall>n\<in>set cs. \<forall>r. field r f = None \<longrightarrow> filterData [r] (nfilter n) = []"
    using img fl no_child_matches by metis
  have 2: "\<forall>n\<in>set cs. m_previousCount (nmetrics n) = length (filterData fp [(f, nvalue n)])
                    \<and> m_currentCount (nmetrics n) = length (filterData fc [(f, nvalue n)])"
    using img v pc cc by metis
  have 3: "(\<Sum>n\<leftarrow>cs. m_previousCount (nmetrics n))
             = length (filter (\<lambda>r. field r f \<noteq> None) fp)"
    "(\<Sum>n\<leftarrow>cs. m_previousAmount (nmetrics n))
           = getTotalAmount (filter (\<lambda>r. field r f \<noteq> None) fp)"
    unfolding cs
    using children_totals [of "\<lambda>n. m_previousCount (nmetrics n)" h fp f
        "\<lambda>n. m_previousAmount (nmetrics n)" "fp @ fc", OF pc pa]
    by simp_all
  have 4: "(\<Sum>n\<leftarrow>cs. m_currentCount (nmetrics n))
             = length (filter (\<lambda>r. field r f \<noteq> None) fc)"
    "(\<Sum>n\<leftarrow>cs. m_currentAmount (nmetrics n))
           = getTotalAmount (filter (\<lambda>r. field r f \<noteq> None) fc)"
    unfolding cs
    using children_totals [of "\<lambda>n. m_currentCount (nmetrics n)" h fc f
        "\<lambda>n. m_currentAmount (nmetrics n)" "fp @ fc", OF cc ca]
    by simp_all
  from 1 2 3 4 show ?thesis by blast
qed

text \<open>
  Claim C10. At every split, in either mode, a row whose value for the splitting factor is
  null or undefined matches the filter of no child, while every node's counts and amounts
  are taken over all rows of its segment (the root's over all rows). So the children's
  record counts and weights add up to those of the parent's rows that have a value for
  the factor, in each period: the children need not partition the parent's rows, and the
  sums fall short of the parent's whenever some row has no value.
\<close>

theorem valueless_rows_outside_children:
  "(depth < length factorOrder \<longrightarrow>
      (let cs = childList (buildUserPriorityTreeLevelV2 p c factorOrder tv depth pf ri pti);
           f = factorOrder ! depth; fp = filterData p pf; fc = filterData c pf
       in (\<forall>n\<in>set cs. \<forall>r. field r f = None \<longrightarrow> filterData [r] (nfilter n) = [])
        \<and> (\<forall>n\<in>set cs. m_previousCount (nmetrics n) = length (filterData fp [(f, nvalue n)])
                    \<and> m_currentCount (nmetrics n) = length (filterData fc [(f, nvalue n)]))
        \<and> (\<Sum>n\<leftarrow>cs. m_previousCount (nmetrics n)) = length (filter (\<lambda>r. field r f \<noteq> None) fp)
        \<and> (\<Sum>n\<leftarrow>cs. m_currentCount (nmetrics n)) = length (filter (\<lambda>r. field r f \<noteq> None) fc)
        \<and> (\<Sum>n\<leftarrow>cs. m_previousAmount (nmetrics n))
            = getTotalAmount (filter (\<lambda>r. field r f \<noteq> None) fp)
        \<and> (\<Sum>n\<leftarrow>cs. m_currentAmount (nmetrics n))
            = getTotalAmount (filter (\<lambda>r. field r f \<noteq> None) fc)))
 \<and> (buildAutoMaxSplitTreeLevelV2 p c tv depth pf fs ri' pti' = Some cs' \<longrightarrow>
      (\<exists>bs. findBestSplitByTotalImpact (filterData p pf) (filterData c pf) fs = Some bs \<and>
        (let f = fst bs; fp = filterData p pf; fc = filterData c pf
         in (\<forall>n\<in>set cs'. \<forall>r. field r f = None \<longrightarrow> filterData [r] (nfilter n) = [])
          \<and> (\<forall>n\<in>set cs'. m_previousCount (nmetrics n) = length (filterData fp [(f, nvalue n)])
                    \<and> m_currentCount (nmetrics n) = length (filterData fc [(f, nvalue n)]))
          \<and> (\<Sum>n\<leftarrow>cs'. m_previousCount (nmetrics n))
              = length (filter (\<lambda>r. field r f \<noteq> None) fp)
          \<and> (\<Sum>n\<leftarrow>cs'. m_currentCount (nmetrics n))
              = length (filter (\<lambda>r. field r f \<noteq> None) fc)
          \<and> (\<Sum>n\<leftarrow>cs'. m_previousAmount (nmetrics n))
              = getTotalAmount (filter (\<lambda>r. field r f \<noteq> None) fp)
          \<and> (\<Sum>n\<leftarrow>cs'. m_currentAmount (nmetrics n))
              = getTotalAmount (filter (\<lambda>r. field r f \<noteq> None) fc))))
 \<and> m_previousCount (rootMetrics p c) = length p \<and> m_currentCount (rootMetrics p c) = length c
 \<and> m_previousAmount (rootMetrics p c) = getTotalAmount p
 \<and> m_currentAmount (rootMetrics p c) = getTotalAmount c"
proof (intro conjI impI)
  assume d: "depth < length factorOrder"
  show "let cs = childList (buildUserPriorityTreeLevelV2 p c factorOrder tv depth pf ri pti);
           f = factorOrder ! depth; fp = filterData p pf; fc = filterData c pf
       in (\<forall>n\<in>set cs. \<forall>r. field r f = None \<longrightarrow> filterData [r] (nfilter n) = [])
        \<and> (\<forall>n\<in>set cs. m_previousCount (nmetrics n) = length (filterData fp [(f, nvalue n)])
                    \<and> m_currentCount (nmetrics n) = length (filterData fc [(f, nvalue n)]))
        \<and> (\<Sum>n\<leftarrow>cs. m_previousCount (nmetrics n)) = length (filter (\<lambda>r. field r f \<noteq> None) fp)
        \<and> (\<Sum>n\<leftarrow>cs. m_currentCount (nmetrics n)) = length (filter (\<lambda>r. field r f \<noteq> None) fc)
        \<and> (\<Sum>n\<leftarrow>cs. m_previousAmount (nmetrics n))
            = getTotalAmount (filter (\<lambda>r. field r f \<noteq> None) fp)
        \<and> (\<Sum>n\<leftarrow>cs. m_currentAmount (nmetrics n))
            = getTotalAmount (filter (\<lambda>r. field r f \<noteq> None) fc)"
  proof (rule priority_level_kids [OF d, of p c tv pf ri pti])
    fix h
    assume "childList (buildUserPriorityTreeLevelV2 p c factorOrder tv depth pf ri pti)
       = sortChildren (map h (getDistinctValuesForFactor
           (filterData p pf @ filterData c pf) (factorOrder ! depth)))"
      "\<And>v. nvalue (h v) = v"
      "\<And>v. nfilter (h v) = AList.update (factorOrder ! depth) v pf"
      "\<And>v. m_previousCount (nmetrics (h v))
           = length (filterData (filterData p pf) [(factorOrder ! depth, v)])"
      "\<And>v. m_currentCount (nmetrics (h v))
           = length (filterData (filterData c pf) [(factorOrder ! depth, v)])"
      "\<And>v. m_previousAmount (nmetrics (h v))
           = getTotalAmount (filterData (filterData p pf) [(factorOrder ! depth, v)])"
      "\<And>v. m_currentAmount (nmetrics (h v))
           = getTotalAmount (filterData (filterData c pf) [(factorOrder ! depth, v)])"
    then have "(\<forall>n\<in>set (childList (buildUserPriorityTreeLevelV2 p c factorOrder tv depth pf
                      ri pti)).
            \<forall>r. field r (factorOrder ! depth) = None \<longrightarrow> filterData [r] (nfilter n) = [])
        \<and> (\<forall>n\<in>set (childList (buildUserPriorityTreeLevelV2 p c factorOrder tv depth pf
                      ri pti)).
              m_previousCount (nmetrics n)
                = length (filterData (filterData p pf) [(factorOrder ! depth, nvalue n)])
            \<and> m_currentCount (nmetrics n)
                = length (filterData (filterData c pf) [(factorOrder ! depth, nvalue n)]))
        \<and> (\<Sum>n\<leftarrow>childList (buildUserPriorityTreeLevelV2 p c factorOrder tv depth pf ri pti).
              m_previousCount (nmetrics n))
            = length (filter (\<lambda>r. field r (factorOrder ! depth) \<noteq> None) (filterData p pf))
        \<and> (\<Sum>n\<leftarrow>childList (buildUserPriorityTreeLevelV2 p c factorOrder tv depth pf ri pti).
              m_currentCount (nmetrics n))
            = length (filter (\<lambda>r. field r (factorOrder ! depth) \<noteq> None) (filterData c pf))
        \<and> (\<Sum>n\<leftarrow>childList (buildUserPriorityTreeLevelV2 p c factorOrder tv depth pf ri pti).
              m_previousAmount (nmetrics n))
            = getTotalAmount (filter (\<lambda>r. field r (factorOrder ! depth) \<noteq> None)
                (filterData p pf))
        \<and> (\<Sum>n\<leftarrow>childList (buildUserPriorityTreeLevelV2 p c factorOrder tv depth pf ri pti).
              m_currentAmount (nmetrics n))
            = getTotalAmount (filter (\<lambda>r. field r (factorOrder ! depth) \<noteq> None)
                (filterData c pf))"
      by (intro split_accounts [where h = h and pf = pf]) auto
    then show ?thesis
      unfolding Let_def .
  qed
next
  assume b: "buildAutoMaxSplitTreeLevelV2 p c tv depth pf fs ri' pti' = Some cs'"
  show "\<exists>bs. findBestSplitByTotalImpact (filterData p pf) (filterData c pf) fs = Some bs \<and>
        (let f = fst bs; fp = filterData p pf; fc = filterData c pf
         in (\<forall>n\<in>set cs'. \<forall>r. field r f = None \<longrightarrow> filterData [r] (nfilter n) = [])
          \<and> (\<forall>n\<in>set cs'. m_previousCount (nmetrics n) = length (filterData fp [(f, nvalue n)])
                    \<and> m_currentCount (nmetrics n) = length (filterData fc [(f, nvalue n)]))
          \<and> (\<Sum>n\<leftarrow>cs'. m_previousCount (nmetrics n))
              = length (filter (\<lambda>r. field r f \<noteq> None) fp)
          \<and> (\<Sum>n\<leftarrow>cs'. m_currentCount (nmetrics n))
              = length (filter (\<lambda>r. field r f \<noteq> None) fc)
          \<and> (\<Sum>n\<leftarrow>cs'. m_previousAmount (nmetrics n))
              = getTotalAmount (filter (\<lambda>r. field r f \<noteq> None) fp)
          \<and> (\<Sum>n\<leftarrow>cs'. m_currentAmount (nmetrics n))
              = getTotalAmount (filter (\<lambda>r. field r f \<noteq> None) fc))"
  proof (rule auto_level_kids [OF b])
    fix h bs
    assume bs: "findBestSplitByTotalImpact (filterData p pf) (filterData c pf) fs = Some bs"
      and h: "cs' = sortChildren (map h (getDistinctValuesForFactor
           (filterData p pf @ filterData c pf) (fst bs)))"
      "\<And>v. nvalue (h v) = v"
      "\<And>v. nfilter (h v) = AList.update (fst bs) v pf"
      "\<And>v. m_previousCount (nmetrics (h v))
           = length (filterData (filterData p pf) [(fst bs, v)])"
      "\<And>v. m_currentCount (nmetrics (h v))
           = length (filterData (filterData c pf) [(fst bs, v)])"
      "\<And>v. m_previousAmount (nmetrics (h v))
           = getTotalAmount (filterData (filterData p pf) [(fst bs, v)])"
      "\<And>v. m_currentAmount (nmetrics (h v))
           = getTotalAmount (filterData (filterData c pf) [(fst bs, v)])"
    from h have "(\<forall>n\<in>set cs'. \<forall>r. field r (fst bs) = None \<longrightarrow> filterData [r] (nfilter n) = [])
          \<and> (\<forall>n\<in>set cs'. m_previousCount (nmetrics n)
                           = length (filterData (filterData p pf) [(fst bs, nvalue n)])
                    \<and> m_currentCount (nmetrics n)
                           = length (filterData (filterData c pf) [(fst bs, nvalue n)]))
          \<and> (\<Sum>n\<leftarrow>cs'. m_previousCount (nmetrics n))
              = length (filter (\<lambda>r. field r (fst bs) \<noteq> None) (filterData p pf))
          \<and> (\<Sum>n\<leftarrow>cs'. m_currentCount (nmetrics n))
              = length (filter (\<lambda>r. field r (fst bs) \<noteq> None) (filterData c pf))
          \<and> (\<Sum>n\<leftarrow>cs'. m_previousAmount (nmetrics n))
              = getTotalAmount (filter (\<lambda>r. field r (fst bs) \<noteq> None) (filterData p pf))
          \<and> (\<Sum>n\<leftarrow>cs'. m_currentAmount (nmetrics n))
              = getTotalAmount (filter (\<lambda>r. field r (fst bs) \<noteq> None) (filterData c pf))"
      by (intro split_accounts [where h = h and pf = pf]) auto
    with bs show ?thesis
      unfolding Let_def by blast
  qed
qed (simp_all add: rootMetrics_def Let_def)

section \<open>The larger example portfolio\<close>

lemma filterData_Nil: "filterData data [] = data"
  by (simp add: filterData_def)

lemma ex_lengths: "length prevEx = 13" "length currEx = 13"
  by (simp_all add: prevEx_def currEx_def)

lemma ex_node_lengths:
  "length (filterData prevEx [(''tier'', Str ''A'')]) = 12"
  "length (filterData currEx [(''tier'', Str ''A'')]) = 12"
  by code_simp+

lemma ex_root_variances:
  "calculateTotalImpactVariance prevEx currEx ''tier'' = 49/25600"
  "calculateTotalImpactVariance prevEx currEx ''x'' = 1/160000"
  "calculateTotalImpactVariance prevEx currEx ''y'' = 1/25600"
  by code_simp+

lemma ex_node_variances:
  "calculateTotalImpactVariance (filterData prevEx [(''tier'', Str ''A'')])
     (filterData currEx [(''tier'', Str ''A'')]) ''tier'' = 0"
  "calculateTotalImpactVariance (filterData prevEx [(''tier'', Str ''A'')])
     (filterData currEx [(''tier'', Str ''A'')]) ''x'' = 1/40000"
  "calculateTotalImpactVariance (filterData prevEx [(''tier'', Str ''A'')])
     (filterData currEx [(''tier'', Str ''A'')]) ''y'' = 0"
  by code_simp+

lemma ex_node_variances_global:
  "calculateTotalImpactVarianceGlobal (filterData prevEx [(''tier'', Str ''A'')])
     (filterData currEx [(''tier'', Str ''A'')]) prevEx currEx ''tier'' = 0"
  "calculateTotalImpactVarianceGlobal (filterData prevEx [(''tier'', Str ''A'')])
     (filterData currEx [(''tier'', Str ''A'')]) prevEx currEx ''x'' = 1/160000"
  "calculateTotalImpactVarianceGlobal (filterData prevEx [(''tier'', Str ''A'')])
     (filterData currEx [(''tier'', Str ''A'')]) prevEx currEx ''y'' = 1/25600"
  by code_simp+

lemma ex_root_split:
  "findBestSplitByTotalImpact prevEx currEx (Some exFactors) = Some (''tier'', 49/25600)"
  by (simp add: findBestSplit_Some_factors exFactors_def ex_root_variances Let_def)

lemma ex_node_split:
  "findBestSplitByTotalImpact (filterData prevEx [(''tier'', Str ''A'')])
     (filterData currEx [(''tier'', Str ''A'')]) (Some exFactors) = Some (''x'', 1/40000)"
  by (simp add: findBestSplit_Some_factors exFactors_def ex_node_variances Let_def)

lemma ex_node_split_global:
  "findBestSplitGlobal (filterData prevEx [(''tier'', Str ''A'')])
     (filterData currEx [(''tier'', Str ''A'')]) prevEx currEx exFactors = Some (''y'', 1/25600)"
  by (simp add: findBestSplitGlobal_def exFactors_def ex_node_variances_global Let_def)

lemma ex_root_level:
  "buildAutoMaxSplitTreeLevelV2 prevEx currEx tv 0 [] (Some exFactors) ri pti \<noteq> None"
  by (rule auto_level_splits [where bs = "(''tier'', 49/25600)"])
     (simp_all add: filterData_Nil ex_lengths ex_root_split)

lemma ex_node_level:
  "buildAutoMaxSplitTreeLevelV2 prevEx currEx tv 1 [(''tier'', Str ''A'')] (Some exFactors)
     ri pti \<noteq> None"
  by (rule auto_level_splits [where bs = "(''x'', 1/40000)"])
     (simp_all add: ex_node_lengths ex_node_split)

theorem auto_tree_depth_and_samples_witness:
  "\<exists>root. buildAutoMaxSplitTreeV2 (Some prevEx) (Some currEx) ''roi'' 0 [] (Some exFactors)
       = Inr (Some [root])
     \<and> nchildren root \<noteq> None \<and> levelsBelow root \<le> 4
     \<and> 10 \<le> length (filterData prevEx (nfilter root))
     \<and> 10 \<le> length (filterData currEx (nfilter root))"
proof -
  from auto_tree_depth_and_samples [of prevEx currEx "''roi''" "Some exFactors"]
  obtain root where root:
    "buildAutoMaxSplitTreeV2 (Some prevEx) (Some currEx) ''roi'' 0 [] (Some exFactors)
       = Inr (Some [root])"
    "levelsBelow root \<le> 4"
    "\<forall>n\<in>set (subtree root). nchildren n \<noteq> None \<longrightarrow>
       10 \<le> length (filterData prevEx (nfilter n))
       \<and> 10 \<le> length (filterData currEx (nfilter n))"
    by blast
  have ch: "nchildren root \<noteq> None"
    using root(1) ex_root_level
    by (auto simp: buildAutoMaxSplitTreeV2_def Let_def)
  have "root \<in> set (subtree root)" by (cases root) simp
  with root(3) ch have "10 \<le> length (filterData prevEx (nfilter root))
       \<and> 10 \<le> length (filterData currEx (nfilter root))"
    by blast
  with root(1,2) ch show ?thesis by blast
qed

theorem child_completeness_witness:
  "0 < length [''tier'']
   \<and> buildAutoMaxSplitTreeLevelV2 prevEx currEx ''roi'' 0 [] (Some exFactors) (1/80) None
       \<noteq> None
   \<and> set (map nvalue (childList
         (buildUserPriorityTreeLevelV2 prevEx currEx [''tier''] ''roi'' 0 [] (1/80) None)))
       = valuesPresent (prevEx @ currEx) ''tier''
   \<and> set (map nvalue (childList
         (buildAutoMaxSplitTreeLevelV2 prevEx currEx ''roi'' 0 [] (Some exFactors) (1/80) None)))
       = valuesPresent (prevEx @ currEx) ''tier''
   \<and> valuesPresent (prevEx @ currEx) ''tier'' = {Str ''A'', Str ''B''}"
proof -
  have ne: "buildAutoMaxSplitTreeLevelV2 prevEx currEx ''roi'' 0 [] (Some exFactors) (1/80) None
            \<noteq> None"
    by (rule ex_root_level)
  then obtain cs where cs:
    "buildAutoMaxSplitTreeLevelV2 prevEx currEx ''roi'' 0 [] (Some exFactors) (1/80) None
       = Some cs"
    by blast
  have vp: "valuesPresent (prevEx @ currEx) ''tier'' = {Str ''A'', Str ''B''}"
    by code_simp
  show ?thesis
    using child_completeness [where depth = 0 and factorOrder = "[''tier'']" and p = prevEx
        and c = currEx and tv = "''roi''" and pf = "[]" and ri = "1/80" and pti = None
        and fs = "Some exFactors" and ri' = "1/80" and pti' = None and cs' = cs]
      ne cs ex_root_split vp
    by (simp add: filterData_Nil childList_def Let_def)
qed

text \<open>
  Claim C5 says that at every node the factor selector takes the per-value total impacts
  against the whole portfolio. On the example portfolio the node tier = A is reached at
  depth 1 with twelve rows in each period. There \<open>findBestSplitByTotalImpact\<close> is given
  the node's own rows, which it also uses as the totals: it selects \<open>x\<close>, and the
  children of that node in the tree are split on \<open>x\<close>. Taken against the whole portfolio,
  as the impacts that each child reports are, the variances select \<open>y\<close>.
\<close>

theorem selector_uses_node_subsets:
  "findBestSplitByTotalImpact (filterData prevEx [(''tier'', Str ''A'')])
     (filterData currEx [(''tier'', Str ''A'')]) (Some exFactors) = Some (''x'', 1/40000)
   \<and> findBestSplitGlobal (filterData prevEx [(''tier'', Str ''A'')])
       (filterData currEx [(''tier'', Str ''A'')]) prevEx currEx exFactors
       = Some (''y'', 1/25600)
   \<and> (\<exists>root a. buildAutoMaxSplitTreeV2 (Some prevEx) (Some currEx) ''roi'' 0 []
                   (Some exFactors) = Inr (Some [root])
         \<and> a \<in> set (childList (nchildren root))
         \<and> nfilter a = [(''tier'', Str ''A'')]
         \<and> nchildren a \<noteq> None
         \<and> list_all (\<lambda>n. nfactor n = ''x'') (childList (nchildren a)))"
proof -
  let ?ri = "calculateWeightedROI currEx - calculateWeightedROI prevEx"
  let ?kids = "buildAutoMaxSplitTreeLevelV2 prevEx currEx ''roi'' 0 [] (Some exFactors) ?ri None"
  let ?root = "Node ''root'' (Str ''Portfolio ROI'') [] (rootMetrics prevEx currEx) ?kids"
  have eq: "buildAutoMaxSplitTreeV2 (Some prevEx) (Some currEx) ''roi'' 0 [] (Some exFactors)
      = Inr (Some [?root])"
    by (simp add: buildAutoMaxSplitTreeV2_def Let_def)
  obtain cs where cs: "?kids = Some cs"
    using ex_root_level [of "''roi''" ?ri None] by blast
  have "\<exists>a\<in>set cs. nfilter a = [(''tier'', Str ''A'')] \<and> nchildren a \<noteq> None
          \<and> list_all (\<lambda>n. nfactor n = ''x'') (childList (nchildren a))"
  proof (rule auto_level_kids [OF cs])
    fix h bs
    assume bs: "findBestSplitByTotalImpact (filterData prevEx []) (filterData currEx [])
                  (Some exFactors) = Some bs"
      and h1: "cs = sortChildren (map h (getDistinctValuesForFactor
           (filterData prevEx [] @ filterData currEx []) (fst bs)))"
      and h2: "\<And>v. nfilter (h v) = AList.update (fst bs) v []"
      and h3: "\<And>v. \<exists>x. nchildren (h v) = buildAutoMaxSplitTreeLevelV2 prevEx currEx ''roi''
                (0 + 1) (AList.update (fst bs) v []) (Some exFactors) ?ri (Some x)"
    have f: "fst bs = ''tier''"
      using bs by (auto simp: filterData_Nil ex_root_split)
    have "Str ''A'' \<in> valuesPresent (prevEx @ currEx) ''tier''"
      by (simp add: valuesPresent_iff prevEx_def exRow_def field_def)
    then have mem: "h (Str ''A'') \<in> set cs"
      unfolding h1 f by (simp add: set_sortChildren filterData_Nil set_getDistinct_valuesPresent)
    have fl: "nfilter (h (Str ''A'')) = [(''tier'', Str ''A'')]"
      by (simp add: h2 f)
    from h3 [of "Str ''A''"] obtain x where x: "nchildren (h (Str ''A''))
        = buildAutoMaxSplitTreeLevelV2 prevEx currEx ''roi'' 1 [(''tier'', Str ''A'')]
            (Some exFactors) ?ri (Some x)"
      by (auto simp: f)
    obtain cs2 where cs2: "buildAutoMaxSplitTreeLevelV2 prevEx currEx ''roi'' 1
        [(''tier'', Str ''A'')] (Some exFactors) ?ri (Some x) = Some cs2"
      using ex_node_level [of "''roi''" ?ri "Some x"] by blast
    have "list_all (\<lambda>n. nfactor n = ''x'') cs2"
    proof (rule auto_level_kids [OF cs2])
      fix h' bs'
      assume bs': "findBestSplitByTotalImpact (filterData prevEx [(''tier'', Str ''A'')])
                  (filterData currEx [(''tier'', Str ''A'')]) (Some exFactors) = Some bs'"
        and k1: "cs2 = sortChildren (map h' (getDistinctValuesForFactor
           (filterData prevEx [(''tier'', Str ''A'')] @ filterData currEx [(''tier'', Str ''A'')])
           (fst bs')))"
        and k2: "\<And>v. nfactor (h' v) = fst bs'"
      have "fst bs' = ''x''" using bs' by (auto simp: ex_node_split)
      then show ?thesis
        unfolding k1 by (simp add: list_all_iff set_sortChildren k2)
    qed
    then show ?thesis
      using mem fl x cs2 by (auto simp: childList_def)
  qed
  then show ?thesis
    using eq cs ex_node_split ex_node_split_global by (auto simp: childList_def)
qed

lemma untiered_facts:
  "length (filter (\<lambda>r. field r ''tier'' \<noteq> None) untiered) = 1"
  "getTotalAmount (filter (\<lambda>r. field r ''tier'' \<noteq> None) untiered) = 50"
  "getTotalAmount untiered = 80"
  "length untiered = 2"
  by code_simp+

lemma ex_valued_x:
  "length (filter (\<lambda>r. field r ''x'' \<noteq> None) prevEx) = 12"
  by code_simp

lemma ex_x_split:
  "findBestSplitByTotalImpact prevEx currEx (Some [''x'']) = Some (''x'', 1/160000)"
  by (simp add: findBestSplit_Some_factors ex_root_variances Let_def)

theorem valueless_rows_outside_children_witness:
  "0 < length [''tier'']
   \<and> (\<Sum>n\<leftarrow>childList (buildUserPriorityTreeLevelV2 untiered untiered [''tier''] ''roi'' 0 []
           0 None). m_previousCount (nmetrics n)) = 1
   \<and> m_previousCount (rootMetrics untiered untiered) = 2
   \<and> (\<Sum>n\<leftarrow>childList (buildUserPriorityTreeLevelV2 untiered untiered [''tier''] ''roi'' 0 []
           0 None). m_previousAmount (nmetrics n)) = 50
   \<and> m_previousAmount (rootMetrics untiered untiered) = 80
   \<and> buildAutoMaxSplitTreeLevelV2 prevEx currEx ''roi'' 0 [] (Some [''x'']) (1/80) None \<noteq> None
   \<and> (\<Sum>n\<leftarrow>childList (buildAutoMaxSplitTreeLevelV2 prevEx currEx ''roi'' 0 [] (Some [''x''])
           (1/80) None). m_previousCount (nmetrics n)) = 12
   \<and> m_previousCount (rootMetrics prevEx currEx) = 13"
proof -
  have ne: "buildAutoMaxSplitTreeLevelV2 prevEx currEx ''roi'' 0 [] (Some [''x'']) (1/80) None
      \<noteq> None"
    by (rule auto_level_splits [where bs = "(''x'', 1/160000)"])
       (simp_all add: filterData_Nil ex_lengths ex_x_split)
  then obtain cs where cs:
    "buildAutoMaxSplitTreeLevelV2 prevEx currEx ''roi'' 0 [] (Some [''x'']) (1/80) None = Some cs"
    by blast
  note T1 = valueless_rows_outside_children [where depth = 0 and factorOrder = "[''tier'']"
        and p = untiered and c = untiered and tv = "''roi''" and pf = "[]" and ri = 0
        and pti = None and fs = "Some [''x'']" and ri' = 0 and pti' = None and cs' = "[]"]
  note T2 = valueless_rows_outside_children [where depth = 0 and factorOrder = "[''tier'']"
        and p = prevEx and c = currEx and tv = "''roi''" and pf = "[]" and ri = 0
        and pti = None and fs = "Some [''x'']" and ri' = "1/80" and pti' = None and cs' = cs]
  have d: "(0::nat) < length [''tier'']" by simp
  have P1: "(\<Sum>n\<leftarrow>childList (buildUserPriorityTreeLevelV2 untiered untiered [''tier''] ''roi'' 0 []
           0 None). m_previousCount (nmetrics n))
         = length (filter (\<lambda>r. field r ([''tier''] ! 0) \<noteq> None) (filterData untiered []))"
    and P2: "(\<Sum>n\<leftarrow>childList (buildUserPriorityTreeLevelV2 untiered untiered [''tier''] ''roi'' 0 []
           0 None). m_previousAmount (nmetrics n))
         = getTotalAmount (filter (\<lambda>r. field r ([''tier''] ! 0) \<noteq> None)
             (filterData untiered []))"
    using T1 d unfolding Let_def by blast+
  have R: "m_previousCount (rootMetrics untiered untiered) = length untiered"
    "m_previousAmount (rootMetrics untiered untiered) = getTotalAmount untiered"
    using T1 by blast+
  have R2: "m_previousCount (rootMetrics prevEx currEx) = length prevEx"
    using T2 by blast
  from T2 cs obtain bs where
    bs: "findBestSplitByTotalImpact (filterData prevEx []) (filterData currEx []) (Some [''x''])
          = Some bs"
    and Q: "(\<Sum>n\<leftarrow>cs. m_previousCount (nmetrics n))
          = length (filter (\<lambda>r. field r (fst bs) \<noteq> None) (filterData prevEx []))"
    unfolding Let_def by blast
  have f: "fst bs = ''x''"
    using bs by (auto simp: filterData_Nil ex_x_split)
  have Q': "(\<Sum>n\<leftarrow>childList (buildAutoMaxSplitTreeLevelV2 prevEx currEx ''roi'' 0 []
       (Some [''x'']) (1/80) None). m_previousCount (nmetrics n)) = 12"
    using Q unfolding cs childList_def f filterData_Nil ex_valued_x by simp
  show ?thesis
    using P1 [unfolded nth_Cons_0 filterData_Nil untiered_facts]
      P2 [unfolded nth_Cons_0 filterData_Nil untiered_facts]
      R [unfolded untiered_facts] R2 [unfolded ex_lengths] Q' ne
    by simp
qed

end
